theory Spec2Isabelle
  imports Main
begin

section \<open>The chat router of shark-chat: data model\<close>

text \<open>
  The router \<^verbatim>\<open>chatRouter\<close> of \<^verbatim>\<open>packages/server/routers/chat.ts\<close> is a set of
  request handlers over a relational store (drizzle queries), a key-value store of
  last-read cursors and a publish/subscribe transport. A table is the list of its
  rows, in storage order; a query is the list of the rows it returns. A handler takes
  the world before the request and returns its response, or the failure it throws,
  with the world after the request.

  Timestamps are instants on the integer line (milliseconds), message ids are the
  integers that the store's auto-increment counter assigns (\<^verbatim>\<open>insertId\<close>), all other
  ids are strings.
\<close>

type_synonym timestamp = int

datatype trpc_code = BAD_REQUEST | NOT_FOUND | FORBIDDEN | UNAUTHORIZED | INTERNAL_SERVER_ERROR

text \<open>
  A handler fails by throwing: a \<^verbatim>\<open>TRPCError\<close> with its code, or any other exception
  (of a collaborator), kept with its message.
\<close>

datatype failure = TRPCError trpc_code | Thrown string

record message_row =
  msg_id :: int
  msg_author_id :: string
  msg_content :: string
  msg_channel_id :: string
  msg_attachment_id :: "string option"
  msg_reply_id :: "int option"
  msg_timestamp :: timestamp

text \<open>
  \<^verbatim>\<open>userProfileKeys = ["id", "name", "image"]\<close>: the columns of a user that the router
  reads; \<^verbatim>\<open>pick(users, ...userProfileKeys)\<close> is a user row restricted to them.
\<close>

record user_row =
  user_id :: string
  user_name :: string
  user_image :: "string option"

text \<open>
  An upload descriptor and the attachment row made from it. The descriptor's other
  fields are copied as they are (\<^verbatim>\<open>...attachment\<close>) and kept as one opaque value.
\<close>

record upload_attachment =
  up_fields :: string
  up_width :: "int option"
  up_height :: "int option"

record attachment_row =
  att_id :: string
  att_fields :: string
  att_width :: "int option"
  att_height :: "int option"

record channel_row =
  mc_id :: string
  mc_last_message_id :: "int option"

record dm_info_row =
  dm_channel_id :: string
  dm_to_user_id :: string
  dm_open :: bool

record group_row =
  group_id :: string
  group_owner_id :: string

record db =
  messages :: "message_row list"
  users :: "user_row list"
  attachments :: "attachment_row list"
  messageChannels :: "channel_row list"
  directMessageInfos :: "dm_info_row list"
  groups :: "group_row list"
  auto_increment :: int

text \<open>The row that \<^verbatim>\<open>send\<close> re-reads after its insert, and the message it returns.\<close>

record sent_row =
  sr_message :: message_row
  sr_reply_message :: "string option"
  sr_reply_user :: "user_row option"
  sr_author :: user_row

record sent_message =
  sm_row :: sent_row
  sm_attachment :: "attachment_row option"
  sm_is_new_dm :: bool
  sm_nonce :: "int option"

text \<open>The rows of the \<^verbatim>\<open>messages\<close> query.\<close>

record listed_row =
  lr_message :: message_row
  lr_author :: "user_row option"
  lr_attachment :: "attachment_row option"
  lr_reply_message :: "string option"
  lr_reply_user :: "user_row option"

text \<open>
  A publish call: the event of \<^verbatim>\<open>channels\<close>, the topic addresses and the payload.
  \<^verbatim>\<open>open_dm\<close> always carries \<^verbatim>\<open>unread_messages: 1\<close>.
\<close>

datatype event =
    Open_dm "string list" string user_row
  | Message_sent "string list" sent_message
  | Message_updated "string list" int string string
  | Message_deleted "string list" int string
  | Typing "string list" user_row

record notify_args =
  na_content :: string
  na_channel_id :: string
  na_user_name :: string

record world =
  store :: db
  last_read :: "string \<times> string \<Rightarrow> timestamp option"
  published :: "event list"
  notified :: "notify_args list"

text \<open>What \<^verbatim>\<open>checkChannelPermissions\<close> returns: \<^verbatim>\<open>{type: "dm", data}\<close> or a group.\<close>

datatype channel_permission = DM dm_info_row | GROUP

text \<open>
  The collaborators of the router that are imported from elsewhere, and what the
  outside gives one request: the zod schemas of \<^verbatim>\<open>shared/schema/chat\<close> (the parsed
  value, or none when the schema rejects), \<^verbatim>\<open>checkChannelPermissions\<close>,
  \<^verbatim>\<open>requireOne\<close> of \<^verbatim>\<open>db/utils\<close>, \<^verbatim>\<open>onReceiveMessage\<close> (the failure it throws, if
  any), the id that \<^verbatim>\<open>createId()\<close> returns, the store's clock for the timestamp of
  an inserted message, and \<^verbatim>\<open>Date.now()\<close>.

  The client \<^verbatim>\<open>db\<close> of \<^verbatim>\<open>db/client\<close> is not among the sources either. The callback
  that \<^verbatim>\<open>send\<close> gives to \<^verbatim>\<open>db.transaction\<close> takes no transaction handle and issues
  its statements through \<^verbatim>\<open>db\<close> itself; \<^verbatim>\<open>db_in_transaction\<close> says whether the client
  runs such statements inside the transaction.
\<close>

record env =
  contentSchema :: "string \<Rightarrow> string option"
  uploadAttachmentSchema :: "upload_attachment \<Rightarrow> upload_attachment option"
  checkChannelPermissions :: "db \<Rightarrow> string \<Rightarrow> string \<Rightarrow> failure + channel_permission"
  requireOne :: "sent_row list \<Rightarrow> failure + sent_row"
  onReceiveMessage :: "notify_args \<Rightarrow> failure option"
  db_in_transaction :: bool
  createId :: string
  store_now :: timestamp
  Date_now :: timestamp

subsection \<open>Publish and the last-read tracker\<close>

definition publish :: "event \<Rightarrow> world \<Rightarrow> world" where
  "publish ev w = w\<lparr>published := published w @ [ev]\<rparr>"

text \<open>
  Modelled from the spec: \<^verbatim>\<open>getLastRead\<close> and \<^verbatim>\<open>setLastRead\<close> of
  \<^verbatim>\<open>../redis/last-read\<close> are not among the sources. The Last-Read Tracker stores, per
  (channel, user), one timestamp: \<^verbatim>\<open>get(channelId, userId)\<close> is the timestamp or
  absent, \<^verbatim>\<open>set(channelId, userId, timestamp)\<close> overwrites it.
\<close>

definition getLastRead :: "string \<Rightarrow> string \<Rightarrow> world \<Rightarrow> timestamp option" where
  "getLastRead channel_id user w = last_read w (channel_id, user)"

definition setLastRead :: "string \<Rightarrow> string \<Rightarrow> timestamp \<Rightarrow> world \<Rightarrow> world" where
  "setLastRead channel_id user t w = w\<lparr>last_read := (last_read w)((channel_id, user) \<mapsto> t)\<rparr>"

subsection \<open>update\<close>

record update_input =
  ui_messageId :: int
  ui_channelId :: string
  ui_content :: string

text \<open>
  The \<^verbatim>\<open>where\<close> clause of \<^verbatim>\<open>update\<close>, and the statement itself: every matching row
  gets the new content; \<^verbatim>\<open>rowsAffected\<close> is the number of matching rows.
\<close>

definition update_where :: "int \<Rightarrow> string \<Rightarrow> string \<Rightarrow> message_row \<Rightarrow> bool" where
  "update_where messageId user channelId m \<longleftrightarrow>
     msg_id m = messageId \<and> msg_author_id m = user \<and> msg_channel_id m = channelId"

definition update_messages :: "int \<Rightarrow> string \<Rightarrow> string \<Rightarrow> string \<Rightarrow> db \<Rightarrow> nat \<times> db" where
  "update_messages messageId user channelId content d =
     (length (filter (update_where messageId user channelId) (messages d)),
      d\<lparr>messages :=
          map (\<lambda>m. if update_where messageId user channelId m
                    then m\<lparr>msg_content := content\<rparr> else m) (messages d)\<rparr>)"

definition update :: "env \<Rightarrow> string \<Rightarrow> update_input \<Rightarrow> world \<Rightarrow> (failure + unit) \<times> world" where
  "update e user raw w =
     (case contentSchema e (ui_content raw) of
        None \<Rightarrow> (Inl (TRPCError BAD_REQUEST), w)
      | Some content \<Rightarrow>
          (case update_messages (ui_messageId raw) user (ui_channelId raw) content (store w) of
             (rowsAffected, d') \<Rightarrow>
               if rowsAffected = 0 then (Inl (TRPCError BAD_REQUEST), w\<lparr>store := d'\<rparr>)
               else (Inr (),
                     publish (Message_updated [ui_channelId raw] (ui_messageId raw) content
                                (ui_channelId raw))
                       (w\<lparr>store := d'\<rparr>))))"

subsection \<open>delete\<close>

text \<open>
  \<^verbatim>\<open>checkDeleteMessage\<close>: the first row of the message, then the owner of the first
  row of \<^verbatim>\<open>groups\<close> (the query has \<^verbatim>\<open>limit(1)\<close> and its \<^verbatim>\<open>where\<close> is commented out).
\<close>

definition checkDeleteMessage :: "db \<Rightarrow> int \<Rightarrow> string \<Rightarrow> failure + string" where
  "checkDeleteMessage d messageId user =
     (case take 1 (filter (\<lambda>m. msg_id m = messageId) (messages d)) of
        [] \<Rightarrow> Inl (TRPCError NOT_FOUND)
      | message # _ \<Rightarrow>
          if msg_author_id message = user then Inr (msg_channel_id message)
          else (case take 1 (map group_owner_id (groups d)) of
                  [] \<Rightarrow> Inl (TRPCError BAD_REQUEST)
                | owner # _ \<Rightarrow>
                    if owner = user then Inr (msg_channel_id message)
                    else Inl (TRPCError BAD_REQUEST)))"

definition delete :: "string \<Rightarrow> int \<Rightarrow> world \<Rightarrow> (failure + unit) \<times> world" where
  "delete user messageId w =
     (case checkDeleteMessage (store w) messageId user of
        Inl err \<Rightarrow> (Inl err, w)
      | Inr channel_id \<Rightarrow>
          (Inr (),
           publish (Message_deleted [channel_id] messageId channel_id)
             (w\<lparr>store := (store w)\<lparr>messages :=
                   filter (\<lambda>m. msg_id m \<noteq> messageId) (messages (store w))\<rparr>\<rparr>)))"

subsection \<open>read, checkout and type\<close>

definition read :: "env \<Rightarrow> string \<Rightarrow> string \<Rightarrow> world \<Rightarrow> (failure + unit) \<times> world" where
  "read e user channelId w = (Inr (), setLastRead channelId user (Date_now e) w)"

definition checkout ::
  "env \<Rightarrow> string \<Rightarrow> string \<Rightarrow> world \<Rightarrow> (failure + timestamp option) \<times> world" where
  "checkout e user channelId w =
     (let old = getLastRead channelId user w
      in (Inr old, setLastRead channelId user (Date_now e) w))"

definition typing :: "string \<Rightarrow> string \<Rightarrow> world \<Rightarrow> (failure + unit) \<times> world" where
  "typing user channelId w =
     (case filter (\<lambda>u. user_id u = user) (users (store w)) of
        [] \<Rightarrow> (Inl (TRPCError BAD_REQUEST), w)
      | u # _ \<Rightarrow> (Inr (), publish (Typing [channelId] u) w))"

subsection \<open>Joins\<close>

text \<open>
  A left join keeps the row on its left when no row on the right matches, with
  nulls for the right columns. Comparing a null column never matches.
\<close>

definition left_join :: "'a list \<Rightarrow> ('a \<Rightarrow> bool) \<Rightarrow> 'a option list" where
  "left_join t on = (case filter on t of [] \<Rightarrow> [None] | r # rs \<Rightarrow> map Some (r # rs))"

definition reply_user_on :: "message_row option \<Rightarrow> user_row \<Rightarrow> bool" where
  "reply_user_on reply_message u =
     (case reply_message of None \<Rightarrow> False | Some r \<Rightarrow> msg_author_id r = user_id u)"

subsection \<open>send\<close>

record send_input =
  si_channelId :: string
  si_content :: string
  si_attachment :: "upload_attachment option"
  si_reply :: "int option"
  si_nonce :: "int option"

text \<open>
  The input schema of \<^verbatim>\<open>send\<close>: the fields are parsed, then the refinement
  \<^verbatim>\<open>content.length !== 0 || attachment != null\<close> is tested on the parsed values.
\<close>

definition parse_attachment :: "env \<Rightarrow> upload_attachment option \<Rightarrow> upload_attachment option option" where
  "parse_attachment e a =
     (case a of None \<Rightarrow> Some None | Some u \<Rightarrow> map_option Some (uploadAttachmentSchema e u))"

definition parse_send_input :: "env \<Rightarrow> send_input \<Rightarrow> send_input option" where
  "parse_send_input e raw =
     (case contentSchema e (si_content raw) of
        None \<Rightarrow> None
      | Some content \<Rightarrow>
          (case parse_attachment e (si_attachment raw) of
             None \<Rightarrow> None
           | Some attachment \<Rightarrow>
               if length content \<noteq> 0 \<or> attachment \<noteq> None
               then Some (raw\<lparr>si_content := content, si_attachment := attachment\<rparr>)
               else None))"

definition insertAttachment ::
  "env \<Rightarrow> upload_attachment option \<Rightarrow> db \<Rightarrow> attachment_row option \<times> db" where
  "insertAttachment e attachment d =
     (case attachment of
        None \<Rightarrow> (None, d)
      | Some a \<Rightarrow>
          (let values = \<lparr>att_id = createId e, att_fields = up_fields a,
                         att_width = up_width a, att_height = up_height a\<rparr>
           in (Some values, d\<lparr>attachments := attachments d @ [values]\<rparr>)))"

definition insert_message ::
  "env \<Rightarrow> string \<Rightarrow> send_input \<Rightarrow> attachment_row option \<Rightarrow> db \<Rightarrow> int \<times> db" where
  "insert_message e user input attachment d =
     (auto_increment d,
      d\<lparr>messages := messages d @
          [\<lparr>msg_id = auto_increment d, msg_author_id = user, msg_content = si_content input,
            msg_channel_id = si_channelId input,
            msg_attachment_id = map_option att_id attachment,
            msg_reply_id = si_reply input, msg_timestamp = store_now e\<rparr>],
        auto_increment := auto_increment d + 1\<rparr>)"

text \<open>
  The select after the insert: the message by its id, inner join of the author, left
  joins of the replied message and of its author.
\<close>

definition select_sent :: "db \<Rightarrow> int \<Rightarrow> sent_row list" where
  "select_sent d message_id =
     [\<lparr>sr_message = m, sr_reply_message = map_option msg_content reply_message,
       sr_reply_user = reply_user, sr_author = author\<rparr>.
        m \<leftarrow> filter (\<lambda>m. msg_id m = message_id) (messages d),
        author \<leftarrow> filter (\<lambda>u. user_id u = msg_author_id m) (users d),
        reply_message \<leftarrow> left_join (messages d) (\<lambda>r. Some (msg_id r) = msg_reply_id m),
        reply_user \<leftarrow> left_join (users d) (reply_user_on reply_message)]"

definition update_last_message :: "message_row \<Rightarrow> db \<Rightarrow> db" where
  "update_last_message message d =
     d\<lparr>messageChannels :=
         map (\<lambda>c. if mc_id c = msg_channel_id message
                   then c\<lparr>mc_last_message_id := Some (msg_id message)\<rparr> else c)
           (messageChannels d)\<rparr>"

text \<open>
  The conditional update of the open flag: \<^verbatim>\<open>set open = true where channel_id = ? and
  open = false\<close>, with the number of rows it affected.
\<close>

definition open_where :: "string \<Rightarrow> dm_info_row \<Rightarrow> bool" where
  "open_where channelId r \<longleftrightarrow> dm_channel_id r = channelId \<and> dm_open r = False"

definition update_open :: "string \<Rightarrow> db \<Rightarrow> nat \<times> db" where
  "update_open channelId d =
     (length (filter (open_where channelId) (directMessageInfos d)),
      d\<lparr>directMessageInfos :=
          map (\<lambda>r. if open_where channelId r then r\<lparr>dm_open := True\<rparr> else r)
            (directMessageInfos d)\<rparr>)"

text \<open>
  The callback of the transaction of \<^verbatim>\<open>send\<close>: the message and the store after it,
  or the failure it throws and the store as the statements before the failure left it.
\<close>

definition send_transaction ::
  "env \<Rightarrow> channel_permission \<Rightarrow> string \<Rightarrow> send_input \<Rightarrow> db \<Rightarrow>
     failure \<times> db + sent_message \<times> db" where
  "send_transaction e perm user input d =
     (case insertAttachment e (si_attachment input) d of
        (attachment, d1) \<Rightarrow>
          (case insert_message e user input attachment d1 of
             (message_id, d2) \<Rightarrow>
               (case requireOne e (select_sent d2 message_id) of
                  Inl err \<Rightarrow> Inl (err, d2)
                | Inr message \<Rightarrow>
                    (let d3 = update_last_message (sr_message message) d2;
                         (is_new_dm, d4) =
                           (case perm of
                              DM data \<Rightarrow>
                                (case update_open (si_channelId input) d3 of
                                   (rowsAffected, d') \<Rightarrow> (rowsAffected \<noteq> 0, d'))
                            | GROUP \<Rightarrow> (False, d3))
                     in Inr (\<lparr>sm_row = message, sm_attachment = attachment,
                               sm_is_new_dm = is_new_dm, sm_nonce = si_nonce input\<rparr>, d4)))))"

definition startsWith :: "string \<Rightarrow> string \<Rightarrow> bool" where
  "startsWith s p \<longleftrightarrow> take (length p) s = p"

text \<open>What \<^verbatim>\<open>send\<close> does once the transaction has committed.\<close>

definition publish_open_dm :: "channel_permission \<Rightarrow> sent_message \<Rightarrow> world \<Rightarrow> world" where
  "publish_open_dm perm message w =
     (case perm of
        DM data \<Rightarrow>
          if sm_is_new_dm message
          then publish (Open_dm [dm_to_user_id data] (dm_channel_id data)
                          (sr_author (sm_row message))) w
          else w
      | GROUP \<Rightarrow> w)"

definition after_commit ::
  "env \<Rightarrow> channel_permission \<Rightarrow> string \<Rightarrow> send_input \<Rightarrow> sent_message \<Rightarrow> world \<Rightarrow>
     (failure + sent_message) \<times> world" where
  "after_commit e perm user input message w =
     (let w1 = publish_open_dm perm message w;
          w2 = setLastRead (si_channelId input) user
                 (msg_timestamp (sr_message (sm_row message)))
                 (publish (Message_sent [si_channelId input] message) w1)
      in if startsWith (si_content input) ''@Shark''
         then (let args = \<lparr>na_content = si_content input, na_channel_id = si_channelId input,
                            na_user_name = user_name (sr_author (sm_row message))\<rparr>;
                   w3 = w2\<lparr>notified := notified w2 @ [args]\<rparr>
               in case onReceiveMessage e args of
                    Some err \<Rightarrow> (Inl err, w3)
                  | None \<Rightarrow> (Inr message, w3))
         else (Inr message, w2))"

text \<open>
  \<^verbatim>\<open>send\<close>. When the callback of the transaction throws, the transaction is rolled
  back: the statements of the callback are undone if they were made inside it, and stay
  if they were not.
\<close>

definition send :: "env \<Rightarrow> string \<Rightarrow> send_input \<Rightarrow> world \<Rightarrow> (failure + sent_message) \<times> world" where
  "send e user raw w =
     (case parse_send_input e raw of
        None \<Rightarrow> (Inl (TRPCError BAD_REQUEST), w)
      | Some input \<Rightarrow>
          (case checkChannelPermissions e (store w) (si_channelId input) user of
             Inl err \<Rightarrow> (Inl err, w)
           | Inr perm \<Rightarrow>
               (case send_transaction e perm user input (store w) of
                  Inl (err, d) \<Rightarrow>
                    (Inl err, if db_in_transaction e then w else w\<lparr>store := d\<rparr>)
                | Inr (message, d') \<Rightarrow>
                    after_commit e perm user input message (w\<lparr>store := d'\<rparr>))))"

subsection \<open>messages\<close>

datatype cursor_type = After | Before

record messages_input =
  mi_channelId :: string
  mi_count :: "int option"
  mi_cursorType :: "cursor_type option"
  mi_cursor :: "timestamp option"

text \<open>
  The input schema of \<^verbatim>\<open>messages\<close>: \<^verbatim>\<open>count\<close> is between 0 and 50 and 50 when it is
  left out, \<^verbatim>\<open>cursorType\<close> is \<^verbatim>\<open>before\<close> when it is left out, \<^verbatim>\<open>cursor\<close> is the
  instant that the datetime string denotes.
\<close>

definition parse_count :: "int option \<Rightarrow> int option" where
  "parse_count c =
     (case c of
        None \<Rightarrow> Some 50
      | Some n \<Rightarrow> if 0 \<le> n \<and> n \<le> 50 then Some n else None)"

definition parse_cursorType :: "cursor_type option \<Rightarrow> cursor_type" where
  "parse_cursorType t = (case t of None \<Rightarrow> Before | Some ct \<Rightarrow> ct)"

definition messages_where :: "string \<Rightarrow> cursor_type \<Rightarrow> timestamp option \<Rightarrow> message_row \<Rightarrow> bool" where
  "messages_where channelId cursorType cursor m \<longleftrightarrow>
     msg_channel_id m = channelId \<and>
     (case cursor of
        None \<Rightarrow> True
      | Some c \<Rightarrow>
          (if cursorType = After then msg_timestamp m > c else True) \<and>
          (if cursorType = Before then msg_timestamp m < c else True))"

text \<open>
  \<^verbatim>\<open>orderBy(desc(messages.timestamp))\<close>: newest first; rows of one timestamp stay in
  storage order.
\<close>

definition order_desc :: "message_row list \<Rightarrow> message_row list" where
  "order_desc ms = sort_key (\<lambda>m. - msg_timestamp m) ms"

definition hydrate :: "db \<Rightarrow> message_row \<Rightarrow> listed_row list" where
  "hydrate d m =
     [\<lparr>lr_message = m, lr_author = author, lr_attachment = attachment,
       lr_reply_message = map_option msg_content reply_message,
       lr_reply_user = reply_user\<rparr>.
        author \<leftarrow> left_join (users d) (\<lambda>u. user_id u = msg_author_id m),
        attachment \<leftarrow> left_join (attachments d) (\<lambda>a. Some (att_id a) = msg_attachment_id m),
        reply_message \<leftarrow> left_join (messages d) (\<lambda>r. msg_reply_id m = Some (msg_id r)),
        reply_user \<leftarrow> left_join (users d) (reply_user_on reply_message)]"

text \<open>
  \<^verbatim>\<open>.limit(count)\<close>: the query builder puts a limit in the statement for a count
  other than 0 only. With a count of 0 the statement has no limit and returns every row.
\<close>

definition limit :: "int \<Rightarrow> 'a list \<Rightarrow> 'a list" where
  "limit count rows = (if count = 0 then rows else take (nat count) rows)"

definition select_messages ::
  "db \<Rightarrow> string \<Rightarrow> cursor_type \<Rightarrow> timestamp option \<Rightarrow> int \<Rightarrow> listed_row list" where
  "select_messages d channelId cursorType cursor count =
     limit count
       (concat (map (hydrate d)
          (order_desc (filter (messages_where channelId cursorType cursor) (messages d)))))"

definition messages_query ::
  "env \<Rightarrow> string \<Rightarrow> messages_input \<Rightarrow> world \<Rightarrow> (failure + listed_row list) \<times> world" where
  "messages_query e user raw w =
     (case parse_count (mi_count raw) of
        None \<Rightarrow> (Inl (TRPCError BAD_REQUEST), w)
      | Some input_count \<Rightarrow>
          (case checkChannelPermissions e (store w) (mi_channelId raw) user of
             Inl err \<Rightarrow> (Inl err, w)
           | Inr perm \<Rightarrow>
               (let count = min input_count 50
                in (Inr (select_messages (store w) (mi_channelId raw)
                           (parse_cursorType (mi_cursorType raw)) (mi_cursor raw) count),
                    w))))"

subsection \<open>Requests and runs\<close>

text \<open>
  A request to the router, with the id of the session's user; the world after a
  request; the world after a sequence of requests, each with what the outside gave it.
\<close>

datatype request =
    Send string send_input
  | Messages string messages_input
  | Update string update_input
  | Delete string int
  | Read string string
  | Checkout string string
  | Type string string

definition handle :: "env \<Rightarrow> request \<Rightarrow> world \<Rightarrow> world" where
  "handle e req w =
     (case req of
        Send user input \<Rightarrow> snd (send e user input w)
      | Messages user input \<Rightarrow> snd (messages_query e user input w)
      | Update user input \<Rightarrow> snd (update e user input w)
      | Delete user messageId \<Rightarrow> snd (delete user messageId w)
      | Read user channelId \<Rightarrow> snd (read e user channelId w)
      | Checkout user channelId \<Rightarrow> snd (checkout e user channelId w)
      | Type user channelId \<Rightarrow> snd (typing user channelId w))"

fun run :: "(env \<times> request) list \<Rightarrow> world \<Rightarrow> world" where
  "run [] w = w"
| "run ((e, req) # reqs) w = run reqs (handle e req w)"

definition is_open_dm :: "event \<Rightarrow> bool" where
  "is_open_dm ev = (case ev of Open_dm _ _ _ \<Rightarrow> True | _ \<Rightarrow> False)"

definition event_topic :: "event \<Rightarrow> string list" where
  "event_topic ev =
     (case ev of
        Open_dm t _ _ \<Rightarrow> t
      | Message_sent t _ \<Rightarrow> t
      | Message_updated t _ _ _ \<Rightarrow> t
      | Message_deleted t _ _ \<Rightarrow> t
      | Typing t _ \<Rightarrow> t)"

text \<open>The publish calls of a request: those of the world after it that are new.\<close>

definition new_events :: "world \<Rightarrow> world \<Rightarrow> event list" where
  "new_events w w' = drop (length (published w)) (published w')"

text \<open>
  The rows of a channel whose flag a request turned from false to true, and the
  \<^verbatim>\<open>open_dm\<close> events of a run that sends into a channel published.
\<close>

definition transitions :: "string \<Rightarrow> db \<Rightarrow> db \<Rightarrow> nat" where
  "transitions channelId d d' =
     length (filter (\<lambda>(r, r'). dm_channel_id r = channelId \<and> \<not> dm_open r \<and> dm_open r')
               (zip (directMessageInfos d) (directMessageInfos d')))"

text \<open>
  A row of \<^verbatim>\<open>directMessageInfos\<close> before and after: the same channel and recipient, and a
  flag that is still true if it was.
\<close>

definition flag_kept :: "dm_info_row \<Rightarrow> dm_info_row \<Rightarrow> bool" where
  "flag_kept r r' \<longleftrightarrow>
     dm_channel_id r' = dm_channel_id r \<and> dm_to_user_id r' = dm_to_user_id r \<and>
     (dm_open r \<longrightarrow> dm_open r')"

definition sends_into :: "string \<Rightarrow> request \<Rightarrow> bool" where
  "sends_into channelId req =
     (case req of Send user input \<Rightarrow> si_channelId input = channelId | _ \<Rightarrow> False)"

fun open_dm_events :: "string \<Rightarrow> (env \<times> request) list \<Rightarrow> world \<Rightarrow> event list" where
  "open_dm_events channelId [] w = []"
| "open_dm_events channelId ((e, req) # reqs) w =
     (if sends_into channelId req
      then filter is_open_dm (new_events w (handle e req w)) else []) @
     open_dm_events channelId reqs (handle e req w)"

subsection \<open>A small world\<close>

text \<open>
  Three users; the groups \<^verbatim>\<open>g1\<close> of mallory and \<^verbatim>\<open>g2\<close> of bob; a direct-message
  channel \<^verbatim>\<open>dm1\<close> to bob that is not open yet; the messages 1 and 2 of alice in
  \<^verbatim>\<open>g2\<close>, 2 replying to a message 7 that is gone, and the message 3 of a user who is
  gone, in \<^verbatim>\<open>g2\<close>. The schemas accept everything as it is, the permission check reads
  the channel's kind off the tables, \<^verbatim>\<open>requireOne\<close> returns the row of a one-row
  result and throws on any other.
\<close>

definition alice :: user_row where
  "alice = \<lparr>user_id = ''alice'', user_name = ''Alice'', user_image = None\<rparr>"

definition bob :: user_row where
  "bob = \<lparr>user_id = ''bob'', user_name = ''Bob'', user_image = None\<rparr>"

definition mallory :: user_row where
  "mallory = \<lparr>user_id = ''mallory'', user_name = ''Mallory'', user_image = None\<rparr>"

definition message1 :: message_row where
  "message1 = \<lparr>msg_id = 1, msg_author_id = ''alice'', msg_content = ''hello'',
     msg_channel_id = ''g2'', msg_attachment_id = None, msg_reply_id = None,
     msg_timestamp = 10\<rparr>"

definition message2 :: message_row where
  "message2 = \<lparr>msg_id = 2, msg_author_id = ''alice'', msg_content = ''again'',
     msg_channel_id = ''g2'', msg_attachment_id = None, msg_reply_id = Some 7,
     msg_timestamp = 20\<rparr>"

definition message3 :: message_row where
  "message3 = \<lparr>msg_id = 3, msg_author_id = ''zed'', msg_content = ''bye'',
     msg_channel_id = ''g2'', msg_attachment_id = None, msg_reply_id = None,
     msg_timestamp = 30\<rparr>"

definition demo_db :: db where
  "demo_db = \<lparr>messages = [message1, message2, message3], users = [alice, bob, mallory],
     attachments = [],
     messageChannels = [\<lparr>mc_id = ''g1'', mc_last_message_id = None\<rparr>,
                        \<lparr>mc_id = ''g2'', mc_last_message_id = Some 3\<rparr>,
                        \<lparr>mc_id = ''dm1'', mc_last_message_id = None\<rparr>],
     directMessageInfos = [\<lparr>dm_channel_id = ''dm1'', dm_to_user_id = ''bob'', dm_open = False\<rparr>],
     groups = [\<lparr>group_id = ''g1'', group_owner_id = ''mallory''\<rparr>,
               \<lparr>group_id = ''g2'', group_owner_id = ''bob''\<rparr>],
     auto_increment = 4\<rparr>"

definition demo_world :: world where
  "demo_world = \<lparr>store = demo_db, last_read = Map.empty, published = [], notified = []\<rparr>"

definition demo_permissions :: "db \<Rightarrow> string \<Rightarrow> string \<Rightarrow> failure + channel_permission" where
  "demo_permissions d channelId user =
     (case filter (\<lambda>r. dm_channel_id r = channelId) (directMessageInfos d) of
        r # _ \<Rightarrow> Inr (DM r)
      | [] \<Rightarrow> if channelId \<in> set (map mc_id (messageChannels d)) then Inr GROUP
              else Inl (TRPCError NOT_FOUND))"

definition demo_requireOne :: "sent_row list \<Rightarrow> failure + sent_row" where
  "demo_requireOne rows = (case rows of [r] \<Rightarrow> Inr r | _ \<Rightarrow> Inl (Thrown ''requireOne''))"

definition demo_env :: env where
  "demo_env = \<lparr>contentSchema = Some, uploadAttachmentSchema = Some,
     checkChannelPermissions = demo_permissions, requireOne = demo_requireOne,
     onReceiveMessage = (\<lambda>args. None), db_in_transaction = True, createId = ''a1'',
     store_now = 40, Date_now = 41\<rparr>"

text \<open>The same outside, with a notifier that throws.\<close>

definition failing_env :: env where
  "failing_env = demo_env\<lparr>onReceiveMessage := (\<lambda>args. Some (Thrown ''inworld''))\<rparr>"

text \<open>The same outside, with a client that runs the statements outside the transaction.\<close>

definition autocommit_env :: env where
  "autocommit_env = demo_env\<lparr>db_in_transaction := False\<rparr>"

text \<open>
  Requests in the small world: a message to the direct-message channel that mentions
  the bot and replies to the message 7 that is gone; an upload to \<^verbatim>\<open>g2\<close> with no
  text; a page of \<^verbatim>\<open>g2\<close> before the instant 30; a run of three requests.
\<close>

definition demo_send :: send_input where
  "demo_send = \<lparr>si_channelId = ''dm1'', si_content = ''@Shark hi'', si_attachment = None,
      si_reply = Some 7, si_nonce = None\<rparr>"

definition demo_upload :: send_input where
  "demo_upload = \<lparr>si_channelId = ''g2'', si_content = [],
      si_attachment = Some \<lparr>up_fields = ''cat.png'', up_width = Some 4, up_height = None\<rparr>,
      si_reply = None, si_nonce = Some 5\<rparr>"

definition demo_query :: messages_input where
  "demo_query = \<lparr>mi_channelId = ''g2'', mi_count = Some 2, mi_cursorType = None,
      mi_cursor = Some 30\<rparr>"

definition demo_run :: "(env \<times> request) list" where
  "demo_run = [(demo_env, Send ''alice'' demo_send), (demo_env, Read ''bob'' ''dm1''),
               (failing_env, Send ''alice'' demo_send)]"

section \<open>Properties\<close>

text \<open>
  Throughout, a publish call and a write of the last-read tracker are recorded as made:
  the transport and the key-value store do not fail here. The store assigns message ids
  from its counter; where a property needs the id to be new, or needs something of
  \<^verbatim>\<open>requireOne\<close>, it says so as a hypothesis.
\<close>

lemmas demo_defs = demo_world_def demo_db_def message1_def message2_def message3_def
  alice_def bob_def mallory_def

lemmas demo_env_defs = demo_env_def failing_env_def autocommit_env_def demo_permissions_def
  demo_requireOne_def

lemmas send_defs = send_def parse_send_input_def parse_attachment_def send_transaction_def
  insertAttachment_def insert_message_def select_sent_def left_join_def reply_user_on_def
  update_last_message_def update_open_def open_where_def after_commit_def publish_open_dm_def
  publish_def setLastRead_def startsWith_def

lemmas query_defs = messages_query_def parse_count_def parse_cursorType_def select_messages_def
  limit_def
  order_desc_def messages_where_def hydrate_def left_join_def reply_user_on_def

lemmas handler_defs = handle_def read_def checkout_def typing_def update_def delete_def
  new_events_def is_open_dm_def event_topic_def sends_into_def

subsection \<open>delete\<close>

lemma take_1_Cons: "take (Suc 0) (map f xs) = x # ys \<Longrightarrow> x \<in> f ` set xs"
  by (cases xs) auto

text \<open>
  C1, as the specification states it, fails: an identity that is neither the author
  of a message nor the owner of any group is refused with \<^verbatim>\<open>BAD_REQUEST\<close>, not with
  \<^verbatim>\<open>FORBIDDEN\<close>. In the small world, carol deletes message 1 of alice.
\<close>

theorem delete_forbidden_counterexample:
  "map msg_id (messages (store demo_world)) = [1, 2, 3] \<and>
   map msg_author_id (messages (store demo_world)) = [''alice'', ''alice'', ''zed''] \<and>
   map group_owner_id (groups (store demo_world)) = [''mallory'', ''bob''] \<and>
   delete ''carol'' 1 demo_world = (Inl (TRPCError BAD_REQUEST), demo_world) \<and>
   fst (delete ''carol'' 1 demo_world) \<noteq> Inl (TRPCError FORBIDDEN)"
  by (simp add: delete_def checkDeleteMessage_def demo_defs)

text \<open>
  C1, amended: a delete of a message that does not exist fails with \<^verbatim>\<open>NOT_FOUND\<close>;
  a delete by the author of the message succeeds, removes the rows of that id and
  publishes the deletion to the message's channel; a delete by an identity that is not
  the author and owns no group fails with \<^verbatim>\<open>BAD_REQUEST\<close>; a delete that fails
  fails with one of these two codes and leaves the world as it was.
\<close>

theorem delete_outcomes:
  "(filter (\<lambda>m. msg_id m = messageId) (messages (store w)) = [] \<longrightarrow>
      delete user messageId w = (Inl (TRPCError NOT_FOUND), w)) \<and>
   (\<forall>m ms. filter (\<lambda>m. msg_id m = messageId) (messages (store w)) = m # ms \<and>
        msg_author_id m = user \<longrightarrow>
      fst (delete user messageId w) = Inr () \<and>
      messages (store (snd (delete user messageId w))) =
        filter (\<lambda>m. msg_id m \<noteq> messageId) (messages (store w)) \<and>
      published (snd (delete user messageId w)) =
        published w @ [Message_deleted [msg_channel_id m] messageId (msg_channel_id m)]) \<and>
   (\<forall>m ms. filter (\<lambda>m. msg_id m = messageId) (messages (store w)) = m # ms \<and>
        msg_author_id m \<noteq> user \<and> user \<notin> set (map group_owner_id (groups (store w))) \<longrightarrow>
      delete user messageId w = (Inl (TRPCError BAD_REQUEST), w)) \<and>
   (\<forall>err. fst (delete user messageId w) = Inl err \<longrightarrow>
      snd (delete user messageId w) = w \<and>
      (err = TRPCError NOT_FOUND \<or> err = TRPCError BAD_REQUEST))"
  by (auto simp: delete_def checkDeleteMessage_def publish_def
      split: list.splits if_splits sum.splits dest: take_1_Cons)

theorem delete_outcomes_witness:
  "delete ''alice'' 9 demo_world = (Inl (TRPCError NOT_FOUND), demo_world) \<and>
   fst (delete ''alice'' 1 demo_world) = Inr () \<and>
   messages (store (snd (delete ''alice'' 1 demo_world))) = [message2, message3] \<and>
   published (snd (delete ''alice'' 1 demo_world)) = [Message_deleted [''g2''] 1 ''g2''] \<and>
   delete ''carol'' 1 demo_world = (Inl (TRPCError BAD_REQUEST), demo_world)"
  using delete_outcomes [of 9 demo_world "''alice''"]
    delete_outcomes [of 1 demo_world "''alice''"]
    delete_outcomes [of 1 demo_world "''carol''"]
  by (simp add: demo_defs)

text \<open>
  The group that \<^verbatim>\<open>checkDeleteMessage\<close> asks is the first row of \<^verbatim>\<open>groups\<close>, not the
  group of the message's channel: mallory, who owns \<^verbatim>\<open>g1\<close>, deletes a message of
  \<^verbatim>\<open>g2\<close>, and bob, who owns \<^verbatim>\<open>g2\<close>, is refused.
\<close>

lemma delete_first_group_owner:
  "fst (delete ''mallory'' 1 demo_world) = Inr () \<and>
   fst (delete ''bob'' 1 demo_world) = Inl (TRPCError BAD_REQUEST)"
  by (simp add: delete_def checkDeleteMessage_def demo_defs)

subsection \<open>update\<close>

text \<open>
  C2, as the specification states it, fails: an update that matches no row fails with
  \<^verbatim>\<open>BAD_REQUEST\<close>, not with \<^verbatim>\<open>FORBIDDEN\<close>. In the small world, bob updates message 1
  of alice.
\<close>

theorem update_forbidden_counterexample:
  "filter (update_where 1 ''bob'' ''g2'') (messages (store demo_world)) = [] \<and>
   update demo_env ''bob'' \<lparr>ui_messageId = 1, ui_channelId = ''g2'', ui_content = ''x''\<rparr> demo_world
     = (Inl (TRPCError BAD_REQUEST), demo_world) \<and>
   fst (update demo_env ''bob'' \<lparr>ui_messageId = 1, ui_channelId = ''g2'', ui_content = ''x''\<rparr> demo_world)
     \<noteq> Inl (TRPCError FORBIDDEN)"
  by (simp add: update_def update_messages_def update_where_def demo_env_def demo_defs)

lemma update_messages_none:
  "filter (update_where i u c) (messages d) = [] \<Longrightarrow> update_messages i u c t d = (0, d)"
  by (auto simp: update_messages_def filter_empty_conv map_idI)

text \<open>
  C2, amended: an update whose match on (id, channel, author) affects no row (the
  message does not exist, is in another channel, or is not the caller's) fails with
  \<^verbatim>\<open>BAD_REQUEST\<close>, the same code in every case, and leaves the world as it was: no row
  is changed and no event is published.
\<close>

theorem update_zero_rows:
  "filter (update_where (ui_messageId raw) user (ui_channelId raw)) (messages (store w)) = [] \<Longrightarrow>
   update e user raw w = (Inl (TRPCError BAD_REQUEST), w)"
  by (simp add: update_def update_messages_none split: option.splits)

theorem update_zero_rows_witness:
  "update demo_env ''alice'' \<lparr>ui_messageId = 9, ui_channelId = ''g2'', ui_content = ''x''\<rparr> demo_world
     = (Inl (TRPCError BAD_REQUEST), demo_world) \<and>
   update demo_env ''alice'' \<lparr>ui_messageId = 1, ui_channelId = ''g1'', ui_content = ''x''\<rparr> demo_world
     = (Inl (TRPCError BAD_REQUEST), demo_world) \<and>
   update demo_env ''bob'' \<lparr>ui_messageId = 1, ui_channelId = ''g2'', ui_content = ''x''\<rparr> demo_world
     = (Inl (TRPCError BAD_REQUEST), demo_world)"
  using update_zero_rows [of "\<lparr>ui_messageId = 9, ui_channelId = ''g2'', ui_content = ''x''\<rparr>"
        "''alice''" demo_world demo_env]
    update_zero_rows [of "\<lparr>ui_messageId = 1, ui_channelId = ''g1'', ui_content = ''x''\<rparr>"
        "''alice''" demo_world demo_env]
    update_zero_rows [of "\<lparr>ui_messageId = 1, ui_channelId = ''g2'', ui_content = ''x''\<rparr>"
        "''bob''" demo_world demo_env]
  by (simp add: update_where_def demo_defs)

subsection \<open>send: the empty message\<close>

text \<open>
  C4: a send with no attachment whose content is empty once parsed (or is rejected by
  the content schema) fails with \<^verbatim>\<open>BAD_REQUEST\<close> and leaves the world as it was: no
  message row, no attachment row, no publish call.
\<close>

theorem send_empty:
  assumes "si_attachment raw = None"
    and "\<forall>content. contentSchema e (si_content raw) = Some content \<longrightarrow> content = []"
  shows "send e user raw w = (Inl (TRPCError BAD_REQUEST), w)"
  using assms
  by (simp add: send_def parse_send_input_def parse_attachment_def split: option.splits)

theorem send_empty_witness:
  "send demo_env ''alice'' \<lparr>si_channelId = ''g2'', si_content = [], si_attachment = None,
      si_reply = None, si_nonce = None\<rparr> demo_world = (Inl (TRPCError BAD_REQUEST), demo_world)"
  using send_empty [of "\<lparr>si_channelId = ''g2'', si_content = [], si_attachment = None,
      si_reply = None, si_nonce = None\<rparr>" demo_env "''alice''" demo_world]
  by (simp add: demo_env_def)

subsection \<open>send: the steps\<close>

lemma send_result:
  "(\<exists>err. send e user raw w = (Inl err, w)) \<or>
   (\<exists>input perm err d. parse_send_input e raw = Some input \<and>
      checkChannelPermissions e (store w) (si_channelId input) user = Inr perm \<and>
      send_transaction e perm user input (store w) = Inl (err, d) \<and>
      send e user raw w = (Inl err, if db_in_transaction e then w else w\<lparr>store := d\<rparr>)) \<or>
   (\<exists>input perm message d'. parse_send_input e raw = Some input \<and>
      checkChannelPermissions e (store w) (si_channelId input) user = Inr perm \<and>
      send_transaction e perm user input (store w) = Inr (message, d') \<and>
      send e user raw w = after_commit e perm user input message (w\<lparr>store := d'\<rparr>))"
  by (auto simp: send_def split: option.splits sum.splits prod.splits)

lemma send_transaction_Inl:
  "send_transaction e perm user input d = Inl (err, d2) \<Longrightarrow>
     directMessageInfos d2 = directMessageInfos d \<and> messageChannels d2 = messageChannels d \<and>
     users d2 = users d \<and> groups d2 = groups d \<and>
     length (messages d2) = length (messages d) + 1"
  by (auto simp: send_transaction_def insertAttachment_def insert_message_def Let_def
      split: option.splits sum.splits prod.splits channel_permission.splits)

lemma send_cases:
  obtains (failed) err w0 where "send e user raw w = (Inl err, w0)"
      "db_in_transaction e \<longrightarrow> w0 = w" "published w0 = published w"
      "directMessageInfos (store w0) = directMessageInfos (store w)"
    | (committed) input perm message d' where "parse_send_input e raw = Some input"
      "checkChannelPermissions e (store w) (si_channelId input) user = Inr perm"
      "send_transaction e perm user input (store w) = Inr (message, d')"
      "send e user raw w = after_commit e perm user input message (w\<lparr>store := d'\<rparr>)"
proof -
  from send_result [of e user raw w] show ?thesis
  proof (elim disjE exE conjE)
    fix err
    assume "send e user raw w = (Inl err, w)"
    then show ?thesis by (rule failed) simp_all
  next
    fix input perm err d
    assume tr: "send_transaction e perm user input (store w) = Inl (err, d)"
      and "send e user raw w = (Inl err, if db_in_transaction e then w else w\<lparr>store := d\<rparr>)"
    then show ?thesis
      using send_transaction_Inl [OF tr]
      by (intro failed [of err "if db_in_transaction e then w else w\<lparr>store := d\<rparr>"]) simp_all
  next
    fix input perm message d'
    assume "parse_send_input e raw = Some input"
      and "checkChannelPermissions e (store w) (si_channelId input) user = Inr perm"
      and "send_transaction e perm user input (store w) = Inr (message, d')"
      and "send e user raw w = after_commit e perm user input message (w\<lparr>store := d'\<rparr>)"
    then show ?thesis by (rule committed)
  qed
qed


lemma after_commit_store: "store (snd (after_commit e perm user input message w)) = store w"
  by (simp add: after_commit_def Let_def publish_open_dm_def publish_def setLastRead_def
      split: option.splits channel_permission.splits)

lemma after_commit_fst:
  "fst (after_commit e perm user input message w) = Inr message' \<Longrightarrow> message' = message"
  by (auto simp: after_commit_def Let_def split: if_splits option.splits)

lemma after_commit_events:
  "published (snd (after_commit e perm user input message w)) =
     published w @
     (case perm of
        DM data \<Rightarrow>
          if sm_is_new_dm message
          then [Open_dm [dm_to_user_id data] (dm_channel_id data) (sr_author (sm_row message))]
          else []
      | GROUP \<Rightarrow> []) @
     [Message_sent [si_channelId input] message]"
  by (simp add: after_commit_def Let_def publish_open_dm_def publish_def setLastRead_def
      split: option.splits channel_permission.splits)

lemma parse_send_input_Some:
  "parse_send_input e raw = Some input \<Longrightarrow>
     si_channelId input = si_channelId raw \<and> si_reply input = si_reply raw \<and>
     si_nonce input = si_nonce raw \<and>
     contentSchema e (si_content raw) = Some (si_content input) \<and>
     (si_attachment input = None \<longleftrightarrow> si_attachment raw = None) \<and>
     (si_content input \<noteq> [] \<or> si_attachment input \<noteq> None)"
  by (auto simp: parse_send_input_def parse_attachment_def split: option.splits if_splits)
    (metis option.distinct(1))+

lemma insertAttachment_tables:
  "insertAttachment e a d = (att, d1) \<Longrightarrow>
     messages d1 = messages d \<and> users d1 = users d \<and> auto_increment d1 = auto_increment d"
  by (auto simp: insertAttachment_def Let_def split: option.splits)

lemma select_sent_member:
  "r \<in> set (select_sent d mid) \<Longrightarrow>
     sr_message r \<in> set (messages d) \<and> msg_id (sr_message r) = mid \<and>
     sr_author r \<in> set (users d) \<and> user_id (sr_author r) = msg_author_id (sr_message r)"
  by (auto simp: select_sent_def)

lemma send_transaction_Inr:
  assumes "send_transaction e perm user input d = Inr (message, d')"
  defines "new \<equiv> \<lparr>msg_id = auto_increment d, msg_author_id = user,
            msg_content = si_content input, msg_channel_id = si_channelId input,
            msg_attachment_id = map_option att_id (sm_attachment message),
            msg_reply_id = si_reply input, msg_timestamp = store_now e\<rparr>"
  shows "requireOne e (select_sent
           (d\<lparr>attachments := attachments d @ (case sm_attachment message of None \<Rightarrow> [] | Some a \<Rightarrow> [a]),
              messages := messages d @ [new], auto_increment := auto_increment d + 1\<rparr>)
           (auto_increment d)) = Inr (sm_row message)"
    and "messages d' = messages d @ [new]"
    and "attachments d' = attachments d @ (case sm_attachment message of None \<Rightarrow> [] | Some a \<Rightarrow> [a])"
    and "sm_attachment message =
           map_option (\<lambda>a. \<lparr>att_id = createId e, att_fields = up_fields a,
                            att_width = up_width a, att_height = up_height a\<rparr>) (si_attachment input)"
    and "messageChannels d' =
           map (\<lambda>c. if mc_id c = msg_channel_id (sr_message (sm_row message))
                     then c\<lparr>mc_last_message_id := Some (msg_id (sr_message (sm_row message)))\<rparr> else c)
             (messageChannels d)"
    and "sm_nonce message = si_nonce input"
  using assms(1) unfolding new_def
  by (auto simp: send_transaction_def insertAttachment_def insert_message_def Let_def
      update_last_message_def update_open_def
      split: option.splits sum.splits prod.splits channel_permission.splits)

lemma committed_message:
  assumes tr: "send_transaction e perm user input d = Inr (message, d')"
    and one: "\<forall>rows r. requireOne e rows = Inr r \<longrightarrow> r \<in> set rows"
    and fresh: "\<forall>m \<in> set (messages d). msg_id m \<noteq> auto_increment d"
  shows "sr_message (sm_row message) =
          \<lparr>msg_id = auto_increment d, msg_author_id = user,
            msg_content = si_content input, msg_channel_id = si_channelId input,
            msg_attachment_id = map_option att_id (sm_attachment message),
            msg_reply_id = si_reply input, msg_timestamp = store_now e\<rparr>"
proof -
  let ?new = "\<lparr>msg_id = auto_increment d, msg_author_id = user,
            msg_content = si_content input, msg_channel_id = si_channelId input,
            msg_attachment_id = map_option att_id (sm_attachment message),
            msg_reply_id = si_reply input, msg_timestamp = store_now e\<rparr>"
  let ?d2 = "d\<lparr>attachments := attachments d @ (case sm_attachment message of None \<Rightarrow> [] | Some a \<Rightarrow> [a]),
              messages := messages d @ [?new], auto_increment := auto_increment d + 1\<rparr>"
  have "requireOne e (select_sent ?d2 (auto_increment d)) = Inr (sm_row message)"
    using send_transaction_Inr(1) [OF tr] .
  with one have "sm_row message \<in> set (select_sent ?d2 (auto_increment d))"
    by blast
  then have "sr_message (sm_row message) \<in> set (messages ?d2)"
    and "msg_id (sr_message (sm_row message)) = auto_increment d"
    using select_sent_member by blast+
  with fresh show ?thesis
    by auto
qed

subsection \<open>send: the bot notifier\<close>

text \<open>
  C3, as the specification states it, fails: the notifier is awaited with nothing
  around it, so what it throws is what the caller of \<^verbatim>\<open>send\<close> receives. In the small
  world a send that mentions the bot commits its message and calls the notifier, and
  fails with the notifier's exception when the notifier throws.
\<close>

theorem send_notifier_counterexample:
  "startsWith (si_content demo_send) ''@Shark'' \<and>
   map msg_id (messages (store (snd (send failing_env ''alice'' demo_send demo_world)))) =
     [1, 2, 3, 4] \<and>
   notified (snd (send failing_env ''alice'' demo_send demo_world)) =
     [\<lparr>na_content = ''@Shark hi'', na_channel_id = ''dm1'', na_user_name = ''Alice''\<rparr>] \<and>
   fst (send failing_env ''alice'' demo_send demo_world) = Inl (Thrown ''inworld'')"
  by (simp add: send_defs demo_send_def demo_env_defs demo_defs)

text \<open>
  C3, amended: for every send that has committed its transaction and whose content
  starts with \<^verbatim>\<open>@Shark\<close>, the notifier is called once, with the content, the channel
  id and the name of the author; when the notifier returns, the caller receives the
  hydrated message; when it throws, the send fails with that failure, the message
  staying committed and published.
\<close>

theorem send_notifier:
  assumes "parse_send_input e raw = Some input"
    and "checkChannelPermissions e (store w) (si_channelId input) user = Inr perm"
    and "send_transaction e perm user input (store w) = Inr (message, d')"
    and "startsWith (si_content input) ''@Shark''"
  shows "notified (snd (send e user raw w)) =
           notified w @ [\<lparr>na_content = si_content input, na_channel_id = si_channelId input,
                          na_user_name = user_name (sr_author (sm_row message))\<rparr>] \<and>
         fst (send e user raw w) =
           (case onReceiveMessage e \<lparr>na_content = si_content input,
                   na_channel_id = si_channelId input,
                   na_user_name = user_name (sr_author (sm_row message))\<rparr> of
              None \<Rightarrow> Inr message
            | Some err \<Rightarrow> Inl err) \<and>
         store (snd (send e user raw w)) = d' \<and>
         Message_sent [si_channelId input] message \<in> set (published (snd (send e user raw w)))"
  using assms
  by (simp add: send_def after_commit_def Let_def publish_open_dm_def publish_def setLastRead_def
      split: option.splits channel_permission.splits)

theorem send_notifier_witness:
  "fst (send failing_env ''alice'' demo_send demo_world) = Inl (Thrown ''inworld'') \<and>
   fst (send demo_env ''alice'' demo_send demo_world) =
     Inr (fst (projr (send_transaction demo_env
        (DM \<lparr>dm_channel_id = ''dm1'', dm_to_user_id = ''bob'', dm_open = False\<rparr>)
        ''alice'' demo_send demo_db))) \<and>
   notified (snd (send failing_env ''alice'' demo_send demo_world)) =
     [\<lparr>na_content = ''@Shark hi'', na_channel_id = ''dm1'', na_user_name = ''Alice''\<rparr>]"
  using send_notifier [of failing_env demo_send demo_send demo_world "''alice''"
      "DM \<lparr>dm_channel_id = ''dm1'', dm_to_user_id = ''bob'', dm_open = False\<rparr>"
      "fst (projr (send_transaction failing_env
        (DM \<lparr>dm_channel_id = ''dm1'', dm_to_user_id = ''bob'', dm_open = False\<rparr>)
        ''alice'' demo_send demo_db))"
      "snd (projr (send_transaction failing_env
        (DM \<lparr>dm_channel_id = ''dm1'', dm_to_user_id = ''bob'', dm_open = False\<rparr>)
        ''alice'' demo_send demo_db))"]
   send_notifier [of demo_env demo_send demo_send demo_world "''alice''"
      "DM \<lparr>dm_channel_id = ''dm1'', dm_to_user_id = ''bob'', dm_open = False\<rparr>"
      "fst (projr (send_transaction demo_env
        (DM \<lparr>dm_channel_id = ''dm1'', dm_to_user_id = ''bob'', dm_open = False\<rparr>)
        ''alice'' demo_send demo_db))"
      "snd (projr (send_transaction demo_env
        (DM \<lparr>dm_channel_id = ''dm1'', dm_to_user_id = ''bob'', dm_open = False\<rparr>)
        ''alice'' demo_send demo_db))"]
  by (simp add: parse_send_input_def parse_attachment_def send_transaction_def
  insertAttachment_def insert_message_def select_sent_def left_join_def reply_user_on_def
  update_last_message_def update_open_def open_where_def startsWith_def demo_send_def demo_env_defs demo_defs)

subsection \<open>send: what the transaction commits\<close>

text \<open>
  C5 fails on the code in its last part, the one atomic unit. The callback of
  \<^verbatim>\<open>db.transaction\<close> takes no transaction handle: the inserts, the select and the
  updates go through the module's \<^verbatim>\<open>db\<close>, as does the insert of \<^verbatim>\<open>insertAttachment\<close>,
  so nothing ties them to the transaction, and with a client that runs such
  statements on their own (\<^verbatim>\<open>autocommit_env\<close>) its rollback undoes none of them. In the
  small world, zed, who has no user row, sends an upload to \<^verbatim>\<open>g2\<close>: the send fails at
  \<^verbatim>\<open>requireOne\<close>, and leaves the message row 4 and the attachment row behind, with the
  last-message pointer of \<^verbatim>\<open>g2\<close> still at 3.
\<close>

theorem send_not_atomic:
  "fst (send autocommit_env ''zed'' demo_upload demo_world) = Inl (Thrown ''requireOne'') \<and>
   map msg_id (messages (store (snd (send autocommit_env ''zed'' demo_upload demo_world)))) =
     [1, 2, 3, 4] \<and>
   map att_id (attachments (store (snd (send autocommit_env ''zed'' demo_upload demo_world)))) =
     [''a1''] \<and>
   map mc_last_message_id
     (messageChannels (store (snd (send autocommit_env ''zed'' demo_upload demo_world)))) =
     [None, Some 3, None]"
  by (simp add: send_defs Let_def demo_upload_def demo_env_defs demo_defs)

text \<open>
  What does hold: a send that succeeds has appended exactly one message row, the one it
  returns, with the id the store assigned; it has appended one attachment row if an
  attachment was supplied and none otherwise; and it has set the last-message pointer
  of the channel to the id of the new message. Where the client runs the statements of
  the callback inside the transaction, whatever a send returns, the store after it is
  either the store before it, or has all three changes. Hypotheses: \<^verbatim>\<open>requireOne\<close>
  returns a row of the result it is given, and the id the store assigns is not the id
  of a message already stored.
\<close>

theorem send_commit:
  fixes e user raw w
  defines "w' \<equiv> snd (send e user raw w)"
  assumes one: "\<forall>rows r. requireOne e rows = Inr r \<longrightarrow> r \<in> set rows"
    and fresh: "\<forall>m \<in> set (messages (store w)). msg_id m \<noteq> auto_increment (store w)"
  shows "(\<forall>message. fst (send e user raw w) = Inr message \<longrightarrow>
            messages (store w') = messages (store w) @ [sr_message (sm_row message)] \<and>
            msg_id (sr_message (sm_row message)) = auto_increment (store w) \<and>
            msg_author_id (sr_message (sm_row message)) = user \<and>
            msg_channel_id (sr_message (sm_row message)) = si_channelId raw \<and>
            msg_attachment_id (sr_message (sm_row message)) =
              map_option att_id (sm_attachment message) \<and>
            attachments (store w') =
              attachments (store w) @ (case sm_attachment message of None \<Rightarrow> [] | Some a \<Rightarrow> [a]) \<and>
            (sm_attachment message = None \<longleftrightarrow> si_attachment raw = None) \<and>
            messageChannels (store w') =
              map (\<lambda>c. if mc_id c = si_channelId raw
                        then c\<lparr>mc_last_message_id := Some (auto_increment (store w))\<rparr> else c)
                (messageChannels (store w))) \<and>
         (db_in_transaction e \<longrightarrow>
          store w' = store w \<or>
          length (messages (store w')) = length (messages (store w)) + 1 \<and>
          length (attachments (store w')) =
            length (attachments (store w)) + (if si_attachment raw = None then 0 else 1) \<and>
          messageChannels (store w') =
              map (\<lambda>c. if mc_id c = si_channelId raw
                        then c\<lparr>mc_last_message_id := Some (auto_increment (store w))\<rparr> else c)
                (messageChannels (store w)))"
proof -
  show ?thesis
  proof (cases rule: send_cases [of e user raw w])
    case (failed err w0)
    then show ?thesis by (auto simp: w'_def)
  next
    case (committed input perm message d')
    note tr = committed(3)
    have st: "store w' = d'"
      by (simp add: w'_def committed(4) after_commit_store)
    have inp: "si_channelId input = si_channelId raw"
      "si_attachment input = None \<longleftrightarrow> si_attachment raw = None"
      using parse_send_input_Some [OF committed(1)] by simp_all
    have new: "sr_message (sm_row message) =
          \<lparr>msg_id = auto_increment (store w), msg_author_id = user,
            msg_content = si_content input, msg_channel_id = si_channelId input,
            msg_attachment_id = map_option att_id (sm_attachment message),
            msg_reply_id = si_reply input, msg_timestamp = store_now e\<rparr>"
      using committed_message [OF tr one fresh] .
    have msgs: "messages d' = messages (store w) @ [sr_message (sm_row message)]"
      using send_transaction_Inr(2) [OF tr] new by simp
    have atts: "attachments d' =
        attachments (store w) @ (case sm_attachment message of None \<Rightarrow> [] | Some a \<Rightarrow> [a])"
      using send_transaction_Inr(3) [OF tr] .
    have att: "sm_attachment message = None \<longleftrightarrow> si_attachment raw = None"
      using send_transaction_Inr(4) [OF tr] inp(2) by simp
    have chans: "messageChannels d' =
        map (\<lambda>c. if mc_id c = si_channelId raw
                  then c\<lparr>mc_last_message_id := Some (auto_increment (store w))\<rparr> else c)
          (messageChannels (store w))"
      using send_transaction_Inr(5) [OF tr] new inp(1) by simp
    have len: "length (attachments d') =
        length (attachments (store w)) + (if si_attachment raw = None then 0 else 1)"
      using atts att by (auto split: option.splits)
    have same: "message' = message" if "fst (send e user raw w) = Inr message'" for message'
      using that committed(4) after_commit_fst by simp
    show ?thesis
      using st msgs atts att chans len new inp(1) same by auto
  qed
qed

lemma demo_requireOne_member: "demo_requireOne rows = Inr r \<Longrightarrow> r \<in> set rows"
  by (auto simp: demo_requireOne_def split: list.splits)

theorem send_commit_witness:
  "map msg_id (messages (store (snd (send demo_env ''alice'' demo_upload demo_world)))) = [1, 2, 3, 4] \<and>
   map att_id (attachments (store (snd (send demo_env ''alice'' demo_upload demo_world)))) = [''a1''] \<and>
   messageChannels (store (snd (send demo_env ''alice'' demo_upload demo_world))) =
     [\<lparr>mc_id = ''g1'', mc_last_message_id = None\<rparr>,
      \<lparr>mc_id = ''g2'', mc_last_message_id = Some 4\<rparr>,
      \<lparr>mc_id = ''dm1'', mc_last_message_id = None\<rparr>]"
proof -
  have one: "\<forall>rows r. requireOne demo_env rows = Inr r \<longrightarrow> r \<in> set rows"
    by (simp add: demo_env_def demo_requireOne_member)
  have fresh: "\<forall>m \<in> set (messages (store demo_world)). msg_id m \<noteq> auto_increment (store demo_world)"
    by (simp add: demo_defs)
  have ok: "\<exists>message. fst (send demo_env ''alice'' demo_upload demo_world) = Inr message \<and>
      map_option att_id (sm_attachment message) = Some ''a1''"
    by (simp add: send_defs Let_def demo_upload_def demo_env_defs demo_defs)
  then obtain message where m: "fst (send demo_env ''alice'' demo_upload demo_world) = Inr message"
    "map_option att_id (sm_attachment message) = Some ''a1''"
    by blast
  show ?thesis
    using send_commit [OF one fresh, of "''alice''" demo_upload] m
    by (auto simp: demo_defs demo_upload_def)
qed

subsection \<open>Joins and pages\<close>

lemma left_join_None: "filter on t = [] \<Longrightarrow> left_join t on = [None]"
  by (simp add: left_join_def)

lemma left_join_nonempty: "left_join t on \<noteq> []"
  by (simp add: left_join_def split: list.splits)

lemma hydrate_message: "r \<in> set (hydrate d m) \<Longrightarrow> lr_message r = m"
  by (auto simp: hydrate_def)


lemma hydrate_missing_author:
  assumes "r \<in> set (hydrate d m)" and "\<forall>u \<in> set (users d). user_id u \<noteq> msg_author_id m"
  shows "lr_author r = None"
proof -
  have "left_join (users d) (\<lambda>u. user_id u = msg_author_id m) = [None]"
    using assms(2) by (intro left_join_None) (auto simp: filter_empty_conv)
  then show ?thesis
    using assms(1) by (auto simp: hydrate_def)
qed

lemma hydrate_nonempty: "hydrate d m \<noteq> []"
  by (auto simp: hydrate_def left_join_nonempty)

lemma limit_member: "r \<in> set (limit n xs) \<Longrightarrow> r \<in> set xs"
  by (auto simp: limit_def dest: in_set_takeD split: if_splits)

lemma sorted_limit:
  assumes "sorted (map f xs)"
  shows "sorted (map f (limit n xs))"
proof (cases "n = 0")
  case True
  with assms show ?thesis by (simp add: limit_def)
next
  case False
  have "sorted (take (nat n) (map f xs))"
    using assms by (rule sorted_wrt_take)
  then show ?thesis
    using False by (simp add: limit_def take_map)
qed

lemma select_messages_member:
  assumes "r \<in> set (select_messages d c ct cur n)"
  shows "lr_message r \<in> set (messages d) \<and> messages_where c ct cur (lr_message r) \<and>
         r \<in> set (hydrate d (lr_message r))"
proof -
  from assms have "r \<in> set (concat (map (hydrate d)
      (order_desc (filter (messages_where c ct cur) (messages d)))))"
    unfolding select_messages_def by (rule limit_member)
  then obtain m where "m \<in> set (filter (messages_where c ct cur) (messages d))"
    and "r \<in> set (hydrate d m)"
    by (auto simp: order_desc_def)
  then show ?thesis
    using hydrate_message by fastforce
qed

lemma messages_query_Inr:
  "fst (messages_query e user raw w) = Inr rows \<Longrightarrow>
     \<exists>n. parse_count (mi_count raw) = Some n \<and>
       rows = select_messages (store w) (mi_channelId raw) (parse_cursorType (mi_cursorType raw))
                (mi_cursor raw) n"
  by (auto simp: messages_query_def Let_def parse_count_def split: option.splits sum.splits if_splits)


lemma parse_count_Some:
  "parse_count c = Some n \<Longrightarrow> n = (case c of None \<Rightarrow> 50 | Some k \<Rightarrow> k)"
  by (auto simp: parse_count_def split: option.splits if_splits)

text \<open>
  The rows of a page come from a list of messages in order, each giving at least one
  row: the rows are in that order, and a message with no row in the page is behind a
  full page.
\<close>

lemma sorted_concat_map:
  assumes "sorted (map key xs)" and "\<forall>x \<in> set xs. \<forall>r \<in> set (f x). g r = x"
  shows "sorted (map (\<lambda>r. key (g r)) (concat (map f xs)))"
  using assms
proof (induction xs)
  case Nil
  then show ?case by simp
next
  case (Cons y ys)
  have "sorted (map (\<lambda>r. key (g r)) (f y))"
    using Cons.prems(2) by (simp add: sorted_wrt_map sorted_wrt_iff_nth_less)
  moreover have "sorted (map (\<lambda>r. key (g r)) (concat (map f ys)))"
    using Cons by simp
  moreover have "key (g r) \<le> key (g r')"
    if "r \<in> set (f y)" "r' \<in> set (concat (map f ys))" for r r'
  proof -
    from that(2) obtain x where "x \<in> set ys" "r' \<in> set (f x)" by auto
    then show ?thesis
      using Cons.prems that(1) by auto
  qed
  ultimately show ?case
    by (auto simp: sorted_append)
qed

lemma take_concat_page:
  assumes "sorted (map key xs)" and "\<forall>x \<in> set xs. f x \<noteq> []"
    and "\<forall>x \<in> set xs. \<forall>r \<in> set (f x). g r = x" and "x \<in> set xs"
  shows "(\<exists>r \<in> set (take n (concat (map f xs))). g r = x) \<or>
         (length (take n (concat (map f xs))) = n \<and>
          (\<forall>r \<in> set (take n (concat (map f xs))). key (g r) \<le> key x))"
  using assms
proof (induction xs arbitrary: n)
  case Nil
  then show ?case by simp
next
  case (Cons y ys)
  show ?case
  proof (cases "n \<le> length (f y)")
    case True
    then have tk: "take n (concat (map f (y # ys))) = take n (f y)"
      by simp
    show ?thesis
    proof (cases "x = y")
      case xy: True
      show ?thesis
      proof (cases n)
        case 0
        then show ?thesis by simp
      next
        case (Suc k)
        from Cons.prems(2) obtain r rs where "f y = r # rs"
          by (cases "f y") auto
        then have "r \<in> set (take n (f y))" "g r = y"
          using Suc Cons.prems(3) by auto
        then show ?thesis
          unfolding tk using xy by blast
      qed
    next
      case False
      with Cons.prems(4) have "x \<in> set ys" by simp
      with Cons.prems(1) have "key y \<le> key x" by auto
      moreover have "g r = y" if "r \<in> set (take n (f y))" for r
        using that Cons.prems(3) by (auto dest: in_set_takeD)
      ultimately show ?thesis
        unfolding tk using True by auto
    qed
  next
    case False
    then have tk: "take n (concat (map f (y # ys))) =
        f y @ take (n - length (f y)) (concat (map f ys))"
      by simp
    show ?thesis
    proof (cases "x = y")
      case True
      from Cons.prems(2) obtain r rs where "f y = r # rs"
        by (cases "f y") auto
      then have "r \<in> set (f y)" "g r = y"
        using Cons.prems(3) by auto
      then show ?thesis
        unfolding tk using True by auto
    next
      case xy: False
      with Cons.prems(4) have x: "x \<in> set ys" by simp
      with Cons.prems(1) have le: "key y \<le> key x" by auto
      have gy: "g r = y" if "r \<in> set (f y)" for r
        using that Cons.prems(3) by auto
      have "(\<exists>r \<in> set (take (n - length (f y)) (concat (map f ys))). g r = x) \<or>
         (length (take (n - length (f y)) (concat (map f ys))) = n - length (f y) \<and>
          (\<forall>r \<in> set (take (n - length (f y)) (concat (map f ys))). key (g r) \<le> key x))"
        using Cons.IH [of "n - length (f y)"] Cons.prems x by simp
      then show ?thesis
      proof
        assume "\<exists>r \<in> set (take (n - length (f y)) (concat (map f ys))). g r = x"
        then show ?thesis unfolding tk by auto
      next
        assume r: "length (take (n - length (f y)) (concat (map f ys))) = n - length (f y) \<and>
          (\<forall>r \<in> set (take (n - length (f y)) (concat (map f ys))). key (g r) \<le> key x)"
        then have "length (f y @ take (n - length (f y)) (concat (map f ys))) = n"
          using False by simp
        moreover have "\<forall>r \<in> set (f y @ take (n - length (f y)) (concat (map f ys))).
            key (g r) \<le> key x"
          using r le gy by auto
        ultimately show ?thesis
          unfolding tk by blast
      qed
    qed
  qed
qed

lemma select_messages_sorted:
  "sorted_wrt (\<lambda>a b. msg_timestamp (lr_message b) \<le> msg_timestamp (lr_message a))
     (select_messages d c ct cur n)"
proof -
  let ?xs = "order_desc (filter (messages_where c ct cur) (messages d))"
  have "sorted (map (\<lambda>m. - msg_timestamp m) ?xs)"
    by (simp add: order_desc_def)
  then have "sorted (map (\<lambda>r. - msg_timestamp (lr_message r)) (concat (map (hydrate d) ?xs)))"
    by (rule sorted_concat_map) (simp add: hydrate_message)
  then have "sorted (map (\<lambda>r. - msg_timestamp (lr_message r)) (select_messages d c ct cur n))"
    unfolding select_messages_def by (rule sorted_limit)
  then show ?thesis
    by (simp add: sorted_wrt_map)
qed

lemma select_messages_complete:
  assumes "m \<in> set (messages d)" and "messages_where c ct cur m"
  shows "(\<exists>r \<in> set (select_messages d c ct cur n). lr_message r = m) \<or>
         (length (select_messages d c ct cur n) = nat n \<and>
          (\<forall>r \<in> set (select_messages d c ct cur n).
             msg_timestamp m \<le> msg_timestamp (lr_message r)))"
proof -
  let ?xs = "order_desc (filter (messages_where c ct cur) (messages d))"
  have "sorted (map (\<lambda>m. - msg_timestamp m) ?xs)"
    by (simp add: order_desc_def)
  moreover have "\<forall>x \<in> set ?xs. hydrate d x \<noteq> []"
    by (simp add: hydrate_nonempty)
  moreover have "\<forall>x \<in> set ?xs. \<forall>r \<in> set (hydrate d x). lr_message r = x"
    by (simp add: hydrate_message)
  moreover have "m \<in> set ?xs"
    using assms by (simp add: order_desc_def)
  ultimately have "(\<exists>r \<in> set (take (nat n) (concat (map (hydrate d) ?xs))). lr_message r = m) \<or>
         (length (take (nat n) (concat (map (hydrate d) ?xs))) = nat n \<and>
          (\<forall>r \<in> set (take (nat n) (concat (map (hydrate d) ?xs))).
              - msg_timestamp (lr_message r) \<le> - msg_timestamp m))"
    by (rule take_concat_page)
  then have page: "n \<noteq> 0 \<Longrightarrow> ?thesis"
    by (simp add: select_messages_def limit_def)
  have "hydrate d m \<noteq> []"
    by (rule hydrate_nonempty)
  then obtain r where "r \<in> set (hydrate d m)"
    by (cases "hydrate d m") auto
  then have "\<exists>r \<in> set (concat (map (hydrate d) ?xs)). lr_message r = m"
    using \<open>m \<in> set ?xs\<close> hydrate_message by fastforce
  then have "n = 0 \<Longrightarrow> ?thesis"
    by (simp add: select_messages_def limit_def)
  with page show ?thesis
    by blast
qed

lemma select_messages_length: "n \<noteq> 0 \<Longrightarrow> length (select_messages d c ct cur n) \<le> nat n"
  by (simp add: select_messages_def limit_def)

lemma select_messages_zero:
  "select_messages d c ct cur 0 =
     concat (map (hydrate d) (order_desc (filter (messages_where c ct cur) (messages d))))"
  by (simp add: select_messages_def limit_def)

subsection \<open>messages: the page\<close>

text \<open>
  C7 holds of the code for every count but 0, and fails at 0: the count 0 passes the
  input schema and the clamp \<^verbatim>\<open>Math.min(input.count, 50)\<close>, and \<^verbatim>\<open>.limit(0)\<close> then
  limits nothing. In the small world, a page of \<^verbatim>\<open>g2\<close> with count 0 has all three
  messages of the channel, where the claim has at most 0.
\<close>

theorem messages_limit_zero:
  "parse_count (mi_count (demo_query\<lparr>mi_count := Some 0, mi_cursor := None\<rparr>)) = Some 0 \<and>
   (\<exists>rows. messages_query demo_env ''alice''
        (demo_query\<lparr>mi_count := Some 0, mi_cursor := None\<rparr>) demo_world =
        (Inr rows, demo_world) \<and>
      map (\<lambda>r. msg_id (lr_message r)) rows = [3, 2, 1] \<and> length rows = 3)"
  by (simp add: query_defs demo_query_def demo_env_defs demo_defs)

text \<open>
  For a count between 1 and 50: a \<^verbatim>\<open>messages\<close> query by a caller the permission
  check lets in returns a page and leaves the world as it was. The page has at most
  count rows; every row is a message of the channel, before the cursor (strictly) when
  the cursor type is \<^verbatim>\<open>before\<close> or left out, after the cursor (strictly) when it is
  \<^verbatim>\<open>after\<close>, any message of the channel when there is no cursor; the rows are
  newest first; and the page is the newest such messages: a message of the channel
  within the cursor is in the page, or the page is full and none of its rows is older
  than that message.
\<close>

theorem messages_page:
  assumes count: "mi_count raw = Some n" "1 \<le> n" "n \<le> 50"
    and perm: "checkChannelPermissions e (store w) (mi_channelId raw) user = Inr perm"
  shows "\<exists>rows. messages_query e user raw w = (Inr rows, w) \<and>
     length rows \<le> nat n \<and>
     (\<forall>r \<in> set rows.
        lr_message r \<in> set (messages (store w)) \<and>
        msg_channel_id (lr_message r) = mi_channelId raw \<and>
        (case mi_cursor raw of
           None \<Rightarrow> True
         | Some t \<Rightarrow>
             (case mi_cursorType raw of
                Some After \<Rightarrow> t < msg_timestamp (lr_message r)
              | _ \<Rightarrow> msg_timestamp (lr_message r) < t))) \<and>
     sorted_wrt (\<lambda>a b. msg_timestamp (lr_message b) \<le> msg_timestamp (lr_message a)) rows \<and>
     (\<forall>m \<in> set (messages (store w)).
        msg_channel_id m = mi_channelId raw \<and>
        (case mi_cursor raw of
           None \<Rightarrow> True
         | Some t \<Rightarrow>
             (case mi_cursorType raw of
                Some After \<Rightarrow> t < msg_timestamp m
              | _ \<Rightarrow> msg_timestamp m < t)) \<longrightarrow>
        (\<exists>r \<in> set rows. lr_message r = m) \<or>
        (length rows = nat n \<and>
         (\<forall>r \<in> set rows. msg_timestamp m \<le> msg_timestamp (lr_message r))))"
proof -
  let ?ct = "parse_cursorType (mi_cursorType raw)"
  let ?rows = "select_messages (store w) (mi_channelId raw) ?ct (mi_cursor raw) n"
  have q: "messages_query e user raw w = (Inr ?rows, w)"
    using count perm by (simp add: messages_query_def parse_count_def Let_def)
  have wh: "messages_where (mi_channelId raw) ?ct (mi_cursor raw) m \<longleftrightarrow>
      msg_channel_id m = mi_channelId raw \<and>
      (case mi_cursor raw of
         None \<Rightarrow> True
       | Some t \<Rightarrow>
           (case mi_cursorType raw of
              Some After \<Rightarrow> t < msg_timestamp m
            | _ \<Rightarrow> msg_timestamp m < t))" for m
    by (simp add: messages_where_def parse_cursorType_def split: option.splits cursor_type.splits)
  have sound: "\<forall>r \<in> set ?rows.
        lr_message r \<in> set (messages (store w)) \<and>
        msg_channel_id (lr_message r) = mi_channelId raw \<and>
        (case mi_cursor raw of
           None \<Rightarrow> True
         | Some t \<Rightarrow>
             (case mi_cursorType raw of
                Some After \<Rightarrow> t < msg_timestamp (lr_message r)
              | _ \<Rightarrow> msg_timestamp (lr_message r) < t))"
    using select_messages_member [of _ "store w" "mi_channelId raw" ?ct "mi_cursor raw" n] wh
    by blast
  have complete: "\<forall>m \<in> set (messages (store w)).
        msg_channel_id m = mi_channelId raw \<and>
        (case mi_cursor raw of
           None \<Rightarrow> True
         | Some t \<Rightarrow>
             (case mi_cursorType raw of
                Some After \<Rightarrow> t < msg_timestamp m
              | _ \<Rightarrow> msg_timestamp m < t)) \<longrightarrow>
        (\<exists>r \<in> set ?rows. lr_message r = m) \<or>
        (length ?rows = nat n \<and>
         (\<forall>r \<in> set ?rows. msg_timestamp m \<le> msg_timestamp (lr_message r)))"
    using select_messages_complete [of _ "store w" "mi_channelId raw" ?ct "mi_cursor raw" n] wh
    by blast
  show ?thesis
    using q sound complete select_messages_sorted select_messages_length [of n] count(2)
    by (intro exI [of _ ?rows]) simp
qed

theorem messages_page_witness:
  "map (\<lambda>r. msg_id (lr_message r)) (projr (fst (messages_query demo_env ''alice'' demo_query demo_world)))
     = [2, 1] \<and>
   map (\<lambda>r. msg_id (lr_message r))
     (projr (fst (messages_query demo_env ''alice'' (demo_query\<lparr>mi_count := Some 1\<rparr>) demo_world)))
     = [2] \<and>
   map (\<lambda>r. msg_id (lr_message r))
     (projr (fst (messages_query demo_env ''alice''
        (demo_query\<lparr>mi_cursorType := Some After, mi_cursor := Some 10\<rparr>) demo_world)))
     = [3, 2]"
proof -
  have perm: "checkChannelPermissions demo_env (store demo_world) ''g2'' ''alice'' = Inr GROUP"
    by (simp add: demo_env_defs demo_defs)
  have 1: "\<exists>rows. messages_query demo_env ''alice'' demo_query demo_world = (Inr rows, demo_world)"
    using messages_page [of demo_query 2 demo_env demo_world "''alice''" GROUP] perm
    by (auto simp: demo_query_def)
  show ?thesis
    using 1 by (auto simp: query_defs demo_query_def demo_env_defs demo_defs)
qed

subsection \<open>Replies to a message that is gone\<close>







subsection \<open>Messages of an author who is gone\<close>

lemma select_sent_no_author:
  assumes "messages d2 = messages d @ [new]" "users d2 = users d"
    and "\<forall>m \<in> set (messages d). msg_id m \<noteq> mid"
    and "\<forall>u \<in> set (users d). user_id u \<noteq> msg_author_id new"
  shows "select_sent d2 mid = []"
proof -
  have 1: "filter (\<lambda>m. msg_id m = mid) (messages d) = []"
    using assms(3) by (auto simp: filter_empty_conv)
  show ?thesis
    using assms(4) by (auto simp: select_sent_def assms(1,2) 1)
qed

lemma send_no_author:
  assumes parse: "parse_send_input e raw = Some input"
    and perm: "checkChannelPermissions e (store w) (si_channelId input) user = Inr perm"
    and fresh: "\<forall>m \<in> set (messages (store w)). msg_id m \<noteq> auto_increment (store w)"
    and absent: "\<forall>u \<in> set (users (store w)). user_id u \<noteq> user"
    and none: "requireOne e [] = Inl err"
  shows "fst (send e user raw w) = Inl err \<and>
         published (snd (send e user raw w)) = published w \<and>
         (db_in_transaction e \<longrightarrow> snd (send e user raw w) = w)"
proof -
  obtain attachment d1 where ia: "insertAttachment e (si_attachment input) (store w) = (attachment, d1)"
    by (cases "insertAttachment e (si_attachment input) (store w)")
  note t1 = insertAttachment_tables [OF ia]
  obtain d2 where im: "insert_message e user input attachment d1 = (auto_increment (store w), d2)"
    by (simp add: insert_message_def t1)
  let ?new = "\<lparr>msg_id = auto_increment (store w), msg_author_id = user,
      msg_content = si_content input, msg_channel_id = si_channelId input,
      msg_attachment_id = map_option att_id attachment, msg_reply_id = si_reply input,
      msg_timestamp = store_now e\<rparr>"
  have d2: "messages d2 = messages (store w) @ [?new]" "users d2 = users (store w)"
    using im by (auto simp: insert_message_def t1)
  have "select_sent d2 (auto_increment (store w)) = []"
    using d2 fresh by (rule select_sent_no_author) (simp add: absent)
  then have "send_transaction e perm user input (store w) = Inl (err, d2)"
    by (simp add: send_transaction_def ia im none)
  then show ?thesis
    using parse perm by (simp add: send_def)
qed

text \<open>
  C10: \<^verbatim>\<open>messages\<close> left-joins the author: a row of a message whose author has no
  user row has a null author, and such a message is not left out, it is in the page
  unless the page is full of messages at least as new. \<^verbatim>\<open>send\<close> inner-joins the
  author: when the sender has no user row the select after the insert is empty, and the
  send fails with what \<^verbatim>\<open>requireOne\<close> throws on an empty result, with nothing
  published, and with nothing stored where the client runs the statements of the
  callback inside the transaction.
\<close>

theorem author_left_join:
  "(\<forall>rows. fst (messages_query e user q w) = Inr rows \<longrightarrow>
      (\<forall>r \<in> set rows.
          (\<forall>u \<in> set (users (store w)). user_id u \<noteq> msg_author_id (lr_message r)) \<longrightarrow>
          lr_author r = None) \<and>
      (\<forall>m \<in> set (messages (store w)).
          (\<forall>u \<in> set (users (store w)). user_id u \<noteq> msg_author_id m) \<and>
          msg_channel_id m = mi_channelId q \<and>
          (case mi_cursor q of
             None \<Rightarrow> True
           | Some t \<Rightarrow>
               (case mi_cursorType q of
                  Some After \<Rightarrow> t < msg_timestamp m
                | _ \<Rightarrow> msg_timestamp m < t)) \<longrightarrow>
          (\<exists>r \<in> set rows. lr_message r = m \<and> lr_author r = None) \<or>
          (length rows = nat (case mi_count q of None \<Rightarrow> 50 | Some n \<Rightarrow> n) \<and>
           (\<forall>r \<in> set rows. msg_timestamp m \<le> msg_timestamp (lr_message r))))) \<and>
   (\<forall>input perm err.
      parse_send_input e raw = Some input \<and>
      checkChannelPermissions e (store w) (si_channelId input) user = Inr perm \<and>
      (\<forall>m \<in> set (messages (store w)). msg_id m \<noteq> auto_increment (store w)) \<and>
      (\<forall>u \<in> set (users (store w)). user_id u \<noteq> user) \<and>
      requireOne e [] = Inl err \<longrightarrow>
      fst (send e user raw w) = Inl err \<and>
      published (snd (send e user raw w)) = published w \<and>
      (db_in_transaction e \<longrightarrow> snd (send e user raw w) = w))"
proof (intro conjI allI impI)
  fix rows
  assume ok: "fst (messages_query e user q w) = Inr rows"
  then obtain n where n: "parse_count (mi_count q) = Some n"
    and rows: "rows = select_messages (store w) (mi_channelId q)
        (parse_cursorType (mi_cursorType q)) (mi_cursor q) n"
    using messages_query_Inr by blast
  show none: "\<forall>r \<in> set rows.
      (\<forall>u \<in> set (users (store w)). user_id u \<noteq> msg_author_id (lr_message r)) \<longrightarrow>
      lr_author r = None"
    using select_messages_member hydrate_missing_author unfolding rows by blast
  show "\<forall>m \<in> set (messages (store w)).
          (\<forall>u \<in> set (users (store w)). user_id u \<noteq> msg_author_id m) \<and>
          msg_channel_id m = mi_channelId q \<and>
          (case mi_cursor q of
             None \<Rightarrow> True
           | Some t \<Rightarrow>
               (case mi_cursorType q of
                  Some After \<Rightarrow> t < msg_timestamp m
                | _ \<Rightarrow> msg_timestamp m < t)) \<longrightarrow>
          (\<exists>r \<in> set rows. lr_message r = m \<and> lr_author r = None) \<or>
          (length rows = nat (case mi_count q of None \<Rightarrow> 50 | Some n \<Rightarrow> n) \<and>
           (\<forall>r \<in> set rows. msg_timestamp m \<le> msg_timestamp (lr_message r)))"
  proof (intro ballI impI)
    fix m
    assume m: "m \<in> set (messages (store w))"
      and c: "(\<forall>u \<in> set (users (store w)). user_id u \<noteq> msg_author_id m) \<and>
          msg_channel_id m = mi_channelId q \<and>
          (case mi_cursor q of
             None \<Rightarrow> True
           | Some t \<Rightarrow>
               (case mi_cursorType q of
                  Some After \<Rightarrow> t < msg_timestamp m
                | _ \<Rightarrow> msg_timestamp m < t))"
    then have "messages_where (mi_channelId q) (parse_cursorType (mi_cursorType q)) (mi_cursor q) m"
      by (simp add: messages_where_def parse_cursorType_def split: option.splits cursor_type.splits)
    with m have "(\<exists>r \<in> set rows. lr_message r = m) \<or>
         (length rows = nat n \<and> (\<forall>r \<in> set rows. msg_timestamp m \<le> msg_timestamp (lr_message r)))"
      unfolding rows by (rule select_messages_complete)
    then show "(\<exists>r \<in> set rows. lr_message r = m \<and> lr_author r = None) \<or>
          (length rows = nat (case mi_count q of None \<Rightarrow> 50 | Some n \<Rightarrow> n) \<and>
           (\<forall>r \<in> set rows. msg_timestamp m \<le> msg_timestamp (lr_message r)))"
      using none c parse_count_Some [OF n] by auto
  qed
next
  fix input perm err
  assume "parse_send_input e raw = Some input \<and>
      checkChannelPermissions e (store w) (si_channelId input) user = Inr perm \<and>
      (\<forall>m \<in> set (messages (store w)). msg_id m \<noteq> auto_increment (store w)) \<and>
      (\<forall>u \<in> set (users (store w)). user_id u \<noteq> user) \<and>
      requireOne e [] = Inl err"
  then show "fst (send e user raw w) = Inl err"
    and "published (snd (send e user raw w)) = published w"
    using send_no_author [of e raw input w user perm err] by blast+
next
  fix input perm err
  assume "parse_send_input e raw = Some input \<and>
      checkChannelPermissions e (store w) (si_channelId input) user = Inr perm \<and>
      (\<forall>m \<in> set (messages (store w)). msg_id m \<noteq> auto_increment (store w)) \<and>
      (\<forall>u \<in> set (users (store w)). user_id u \<noteq> user) \<and>
      requireOne e [] = Inl err"
    and "db_in_transaction e"
  then show "snd (send e user raw w) = w"
    using send_no_author [of e raw input w user perm err] by blast
qed

theorem author_left_join_witness:
  "(\<exists>rows. fst (messages_query demo_env ''alice''
        (demo_query\<lparr>mi_cursor := None\<rparr>) demo_world) = Inr rows \<and>
      map (\<lambda>r. (msg_id (lr_message r), msg_author_id (lr_message r), lr_author r)) rows =
        [(3, ''zed'', None), (2, ''alice'', Some alice)]) \<and>
   fst (send demo_env ''zed'' (demo_send\<lparr>si_channelId := ''g2''\<rparr>) demo_world) =
     Inl (Thrown ''requireOne'') \<and>
   snd (send demo_env ''zed'' (demo_send\<lparr>si_channelId := ''g2''\<rparr>) demo_world) = demo_world"
proof -
  note t = author_left_join [of demo_env _ _ demo_world]
  have q: "\<exists>rows. fst (messages_query demo_env ''alice''
        (demo_query\<lparr>mi_cursor := None\<rparr>) demo_world) = Inr rows \<and>
      map (\<lambda>r. (msg_id (lr_message r), msg_author_id (lr_message r), lr_author r)) rows =
        [(3, ''zed'', None), (2, ''alice'', Some alice)]"
    using t [of "''alice''" "demo_query\<lparr>mi_cursor := None\<rparr>", THEN conjunct1]
    by (simp add: query_defs demo_query_def demo_env_defs demo_defs)
  have s: "fst (send demo_env ''zed'' (demo_send\<lparr>si_channelId := ''g2''\<rparr>) demo_world) =
     Inl (Thrown ''requireOne'') \<and>
   snd (send demo_env ''zed'' (demo_send\<lparr>si_channelId := ''g2''\<rparr>) demo_world) = demo_world"
    using t [of "''zed''" _ "demo_send\<lparr>si_channelId := ''g2''\<rparr>", THEN conjunct2, rule_format,
        of "demo_send\<lparr>si_channelId := ''g2''\<rparr>" GROUP "Thrown ''requireOne''"]
    by (simp add: parse_send_input_def parse_attachment_def demo_send_def demo_env_defs demo_defs)
  from q s show ?thesis ..
qed

subsection \<open>The open flag of a direct-message channel\<close>

lemma flag_kept_refl: "list_all2 flag_kept xs xs"
  by (simp add: list_all2_same flag_kept_def)

lemma flag_kept_trans:
  "list_all2 flag_kept xs ys \<Longrightarrow> list_all2 flag_kept ys zs \<Longrightarrow> list_all2 flag_kept xs zs"
  by (rule list_all2_trans [of flag_kept flag_kept flag_kept]) (auto simp: flag_kept_def)

lemma flag_kept_update_open:
  "list_all2 flag_kept xs (map (\<lambda>r. if open_where c r then r\<lparr>dm_open := True\<rparr> else r) xs)"
  by (simp add: list_all2_map2 list_all2_same flag_kept_def)

lemma flag_kept_closed_aux:
  "list_all2 flag_kept xs ys \<Longrightarrow> \<forall>r \<in> set xs. \<not> open_where c r \<Longrightarrow>
     \<forall>r \<in> set ys. \<not> open_where c r"
  by (induction xs ys rule: list_all2_induct) (auto simp: flag_kept_def open_where_def)

lemma flag_kept_closed:
  "list_all2 flag_kept xs ys \<Longrightarrow> filter (open_where c) xs = [] \<Longrightarrow> filter (open_where c) ys = []"
  using flag_kept_closed_aux [of xs ys c] by (simp add: filter_empty_conv)

lemma update_open_closed:
  "filter (open_where c) (map (\<lambda>r. if open_where c r then r\<lparr>dm_open := True\<rparr> else r) xs) = []"
  by (induction xs) (auto simp: open_where_def)

lemma transitions_same: "directMessageInfos d' = directMessageInfos d \<Longrightarrow> transitions c d d' = 0"
  by (auto simp: transitions_def filter_empty_conv dest: in_set_zipE set_zip_leftD
      simp: set_zip)

lemma transitions_update_open_aux:
  "length (filter (\<lambda>(r, r'). dm_channel_id r = c \<and> \<not> dm_open r \<and> dm_open r')
     (zip xs (map (\<lambda>r. if open_where c r then r\<lparr>dm_open := True\<rparr> else r) xs))) =
   length (filter (open_where c) xs)"
  by (induction xs) (auto simp: open_where_def)

lemma transitions_update_open:
  "directMessageInfos d' =
      map (\<lambda>r. if open_where c r then r\<lparr>dm_open := True\<rparr> else r) (directMessageInfos d) \<Longrightarrow>
   transitions c d d' = length (filter (open_where c) (directMessageInfos d))"
  by (simp add: transitions_def transitions_update_open_aux)

lemma send_transaction_dm:
  assumes "send_transaction e perm user input d = Inr (message, d')"
  shows "case perm of
           DM data \<Rightarrow>
             directMessageInfos d' =
               map (\<lambda>r. if open_where (si_channelId input) r then r\<lparr>dm_open := True\<rparr> else r)
                 (directMessageInfos d) \<and>
             sm_is_new_dm message = (filter (open_where (si_channelId input)) (directMessageInfos d) \<noteq> [])
         | GROUP \<Rightarrow> directMessageInfos d' = directMessageInfos d \<and> \<not> sm_is_new_dm message"
  using assms
  by (auto simp: send_transaction_def insertAttachment_def insert_message_def Let_def
      update_last_message_def update_open_def
      split: option.splits sum.splits prod.splits channel_permission.splits)

lemma new_events_append: "published w' = published w @ evs \<Longrightarrow> new_events w w' = evs"
  by (simp add: new_events_def)

text \<open>
  What a send does to the flags, and the \<^verbatim>\<open>open_dm\<close> events it publishes.
\<close>

lemma send_dm_cases:
  fixes e user raw w
  defines "w' \<equiv> snd (send e user raw w)"
    and "c \<equiv> si_channelId raw"
  shows "(directMessageInfos (store w') = directMessageInfos (store w) \<and>
          filter is_open_dm (new_events w w') = [] \<and>
          (\<forall>message. fst (send e user raw w) = Inr message \<longrightarrow> \<not> sm_is_new_dm message)) \<or>
         (\<exists>data author.
            checkChannelPermissions e (store w) c user = Inr (DM data) \<and>
            directMessageInfos (store w') =
              map (\<lambda>r. if open_where c r then r\<lparr>dm_open := True\<rparr> else r)
                (directMessageInfos (store w)) \<and>
            filter is_open_dm (new_events w w') =
              (if filter (open_where c) (directMessageInfos (store w)) \<noteq> []
               then [Open_dm [dm_to_user_id data] (dm_channel_id data) author] else []) \<and>
            (\<forall>message. fst (send e user raw w) = Inr message \<longrightarrow>
               sm_is_new_dm message = (filter (open_where c) (directMessageInfos (store w)) \<noteq> [])))"
proof -
  show ?thesis
  proof (cases rule: send_cases [of e user raw w])
    case (failed err w0)
    then show ?thesis
      by (simp add: w'_def new_events_def)
  next
    case (committed input perm message d')
    have ch: "si_channelId input = c"
      using parse_send_input_Some [OF committed(1)] by (simp add: c_def)
    have st: "store w' = d'"
      by (simp add: w'_def committed(4) after_commit_store)
    have same: "message' = message" if "fst (send e user raw w) = Inr message'" for message'
      using that committed(4) after_commit_fst by simp
    have ev: "new_events w w' =
       (case perm of
        DM data \<Rightarrow>
          if sm_is_new_dm message
          then [Open_dm [dm_to_user_id data] (dm_channel_id data) (sr_author (sm_row message))]
          else []
      | GROUP \<Rightarrow> []) @ [Message_sent [si_channelId input] message]"
      by (rule new_events_append) (simp add: w'_def committed(4) after_commit_events)
    show ?thesis
    proof (cases perm)
      case GROUP
      then show ?thesis
        using send_transaction_dm [OF committed(3)] st ev same
        by (auto simp: is_open_dm_def)
    next
      case (DM data)
      then have "directMessageInfos (store w') =
              map (\<lambda>r. if open_where c r then r\<lparr>dm_open := True\<rparr> else r)
                (directMessageInfos (store w))"
        and new: "sm_is_new_dm message = (filter (open_where c) (directMessageInfos (store w)) \<noteq> [])"
        using send_transaction_dm [OF committed(3)] st ch by simp_all
      moreover have "filter is_open_dm (new_events w w') =
              (if filter (open_where c) (directMessageInfos (store w)) \<noteq> []
               then [Open_dm [dm_to_user_id data] (dm_channel_id data) (sr_author (sm_row message))]
               else [])"
        using ev DM new by (simp add: is_open_dm_def)
      moreover have "checkChannelPermissions e (store w) c user = Inr (DM data)"
        using committed(2) ch DM by simp
      ultimately show ?thesis
        using same by blast
    qed
  qed
qed

lemma other_requests:
  assumes "\<forall>user input. req \<noteq> Send user input"
  shows "directMessageInfos (store (handle e req w)) = directMessageInfos (store w) \<and>
         filter is_open_dm (new_events w (handle e req w)) = []"
proof (cases req)
  case (Send user input)
  with assms show ?thesis by simp
next
  case (Messages user input)
  then show ?thesis
    by (simp add: handle_def messages_query_def Let_def new_events_def
        split: option.splits sum.splits)
next
  case (Update user input)
  then show ?thesis
    by (simp add: handle_def update_def update_messages_def publish_def new_events_def
        is_open_dm_def split: option.splits)
next
  case (Delete user messageId)
  then show ?thesis
    by (simp add: handle_def delete_def publish_def new_events_def is_open_dm_def
        split: sum.splits)
next
  case (Read user channelId)
  then show ?thesis
    by (simp add: handle_def read_def setLastRead_def new_events_def)
next
  case (Checkout user channelId)
  then show ?thesis
    by (simp add: handle_def checkout_def Let_def setLastRead_def new_events_def)
next
  case (Type user channelId)
  then show ?thesis
    by (simp add: handle_def typing_def publish_def new_events_def is_open_dm_def
        split: list.splits)
qed

lemma handle_kept:
  "list_all2 flag_kept (directMessageInfos (store w)) (directMessageInfos (store (handle e req w)))"
proof (cases "\<exists>user input. req = Send user input")
  case True
  then obtain user input where req: "req = Send user input" by blast
  show ?thesis
    using send_dm_cases [of e user input w]
    by (auto simp: req handle_def flag_kept_refl flag_kept_update_open)
next
  case False
  then show ?thesis
    using other_requests [of req e w] by (simp add: flag_kept_refl)
qed

lemma run_kept:
  "list_all2 flag_kept (directMessageInfos (store w)) (directMessageInfos (store (run reqs w)))"
proof (induction reqs arbitrary: w)
  case Nil
  show ?case by (simp add: flag_kept_refl)
next
  case (Cons a reqs)
  obtain e req where a: "a = (e, req)" by (cases a)
  show ?case
    unfolding a run.simps
    using handle_kept Cons.IH by (rule flag_kept_trans)
qed

lemma open_dm_events_bound:
  "length (open_dm_events c reqs w) \<le>
     (if filter (open_where c) (directMessageInfos (store w)) = [] then 0 else 1)"
proof (induction reqs arbitrary: w)
  case Nil
  show ?case by simp
next
  case (Cons a reqs)
  obtain e req where a: "a = (e, req)" by (cases a)
  let ?w1 = "handle e req w"
  let ?closed = "\<lambda>w. filter (open_where c) (directMessageInfos (store w))"
  have mono: "?closed ?w1 = []" if "?closed w = []"
    using handle_kept that by (rule flag_kept_closed)
  have IH: "length (open_dm_events c reqs ?w1) \<le> (if ?closed ?w1 = [] then 0 else 1)"
    by (rule Cons.IH)
  have le1: "length (open_dm_events c reqs ?w1) \<le> 1"
    using IH by (simp split: if_splits)
  have rest0: "open_dm_events c reqs ?w1 = []" if "?closed w = []"
    using IH mono [OF that] by simp
  show ?case
  proof (cases "sends_into c req")
    case False
    then show ?thesis
      using le1 rest0 by (auto simp: a)
  next
    case True
    then obtain user raw where req: "req = Send user raw" and ch: "si_channelId raw = c"
      by (auto simp: sends_into_def split: request.splits)
    have w1: "?w1 = snd (send e user raw w)"
      by (simp add: req handle_def)
    from send_dm_cases [of e user raw w]
    show ?thesis
    proof (elim disjE exE conjE)
      assume "filter is_open_dm (new_events w (snd (send e user raw w))) = []"
      then show ?thesis
        using le1 rest0 True by (auto simp: a w1)
    next
      fix data author
      assume dms: "directMessageInfos (store (snd (send e user raw w))) =
          map (\<lambda>r. if open_where (si_channelId raw) r then r\<lparr>dm_open := True\<rparr> else r)
            (directMessageInfos (store w))"
        and ev: "filter is_open_dm (new_events w (snd (send e user raw w))) =
          (if filter (open_where (si_channelId raw)) (directMessageInfos (store w)) \<noteq> []
           then [Open_dm [dm_to_user_id data] (dm_channel_id data) author] else [])"
      have "?closed ?w1 = []"
        by (simp add: w1 dms ch update_open_closed)
      with IH have "open_dm_events c reqs ?w1 = []"
        by simp
      then show ?thesis
        using True ev ch by (simp add: a w1)
    qed
  qed
qed

text \<open>
  C6: over any run of requests to the router, served one after the other, every row of
  \<^verbatim>\<open>directMessageInfos\<close> keeps its channel and recipient and a flag that is true stays
  true, so a flag goes from false to true at most once. A send sets the flag by the
  conditional update alone: the message it returns has \<^verbatim>\<open>is_new_dm\<close> exactly when the
  update turned a flag of the channel from false to true, it publishes one \<^verbatim>\<open>open_dm\<close>
  event in that case and none otherwise, to the topic of the recipient that the
  permission check returned. A request that is not a send publishes no \<^verbatim>\<open>open_dm\<close>
  event and changes no flag. The sends of a run into one channel publish at most one
  \<^verbatim>\<open>open_dm\<close> event together, and none when every flag of the channel is already
  true.
\<close>

theorem dm_open_once:
  "list_all2 flag_kept (directMessageInfos (store w)) (directMessageInfos (store (run reqs w))) \<and>
   (\<forall>message. fst (send e user raw w) = Inr message \<longrightarrow>
      sm_is_new_dm message =
        (0 < transitions (si_channelId raw) (store w) (store (snd (send e user raw w))))) \<and>
   length (filter is_open_dm (new_events w (snd (send e user raw w)))) =
     (if 0 < transitions (si_channelId raw) (store w) (store (snd (send e user raw w)))
      then 1 else 0) \<and>
   (\<forall>data. checkChannelPermissions e (store w) (si_channelId raw) user = Inr (DM data) \<longrightarrow>
      list_all (\<lambda>ev. event_topic ev = [dm_to_user_id data])
        (filter is_open_dm (new_events w (snd (send e user raw w))))) \<and>
   (\<forall>req. (\<forall>u i. req \<noteq> Send u i) \<longrightarrow>
      filter is_open_dm (new_events w (handle e req w)) = [] \<and>
      directMessageInfos (store (handle e req w)) = directMessageInfos (store w)) \<and>
   length (open_dm_events c reqs w) \<le> 1 \<and>
   (filter (open_where c) (directMessageInfos (store w)) = [] \<longrightarrow> open_dm_events c reqs w = [])"
proof -
  let ?w' = "snd (send e user raw w)"
  let ?c = "si_channelId raw"
  have send: "(\<forall>message. fst (send e user raw w) = Inr message \<longrightarrow>
      sm_is_new_dm message = (0 < transitions ?c (store w) (store ?w'))) \<and>
   length (filter is_open_dm (new_events w ?w')) =
     (if 0 < transitions ?c (store w) (store ?w') then 1 else 0) \<and>
   (\<forall>data. checkChannelPermissions e (store w) ?c user = Inr (DM data) \<longrightarrow>
      list_all (\<lambda>ev. event_topic ev = [dm_to_user_id data])
        (filter is_open_dm (new_events w ?w')))"
    using send_dm_cases [of e user raw w]
  proof (elim disjE exE conjE)
    assume same: "directMessageInfos (store ?w') = directMessageInfos (store w)"
      and "filter is_open_dm (new_events w ?w') = []"
      and "\<forall>message. fst (send e user raw w) = Inr message \<longrightarrow> \<not> sm_is_new_dm message"
    then show ?thesis
      using transitions_same [OF same, of ?c] by simp
  next
    fix data author
    assume perm: "checkChannelPermissions e (store w) ?c user = Inr (DM data)"
      and dms: "directMessageInfos (store ?w') =
          map (\<lambda>r. if open_where ?c r then r\<lparr>dm_open := True\<rparr> else r)
            (directMessageInfos (store w))"
      and ev: "filter is_open_dm (new_events w ?w') =
          (if filter (open_where ?c) (directMessageInfos (store w)) \<noteq> []
           then [Open_dm [dm_to_user_id data] (dm_channel_id data) author] else [])"
      and new: "\<forall>message. fst (send e user raw w) = Inr message \<longrightarrow>
          sm_is_new_dm message = (filter (open_where ?c) (directMessageInfos (store w)) \<noteq> [])"
    have tr: "transitions ?c (store w) (store ?w') =
        length (filter (open_where ?c) (directMessageInfos (store w)))"
      using dms by (rule transitions_update_open)
    show ?thesis
      using perm ev new by (simp add: tr event_topic_def)
  qed
  have other: "\<forall>req. (\<forall>u i. req \<noteq> Send u i) \<longrightarrow>
      filter is_open_dm (new_events w (handle e req w)) = [] \<and>
      directMessageInfos (store (handle e req w)) = directMessageInfos (store w)"
    using other_requests by blast
  have bound: "length (open_dm_events c reqs w) \<le> 1 \<and>
   (filter (open_where c) (directMessageInfos (store w)) = [] \<longrightarrow> open_dm_events c reqs w = [])"
    using open_dm_events_bound [of c reqs w] by (simp split: if_splits)
  show ?thesis
    using run_kept send other bound by blast
qed

theorem dm_open_once_witness:
  "map dm_open (directMessageInfos (store demo_world)) = [False] \<and>
   map dm_open (directMessageInfos (store (run demo_run demo_world))) = [True] \<and>
   transitions ''dm1'' (store demo_world) (store (snd (send demo_env ''alice'' demo_send demo_world))) = 1 \<and>
   filter is_open_dm (new_events demo_world (snd (send demo_env ''alice'' demo_send demo_world))) =
     [Open_dm [''bob''] ''dm1'' alice] \<and>
   open_dm_events ''dm1'' demo_run demo_world = [Open_dm [''bob''] ''dm1'' alice]"
  using dm_open_once [of demo_world demo_run demo_env "''alice''" demo_send "''dm1''"]
  by (simp add: demo_run_def handler_defs send_defs transitions_def demo_send_def
      demo_env_defs demo_defs)

subsection \<open>checkout\<close>

text \<open>
  C8: checkout returns the last-read cursor of (channel, user) as it was before the
  call, absent when it was never set, and stores \<^verbatim>\<open>Date.now()\<close> as the new cursor, which
  a later get returns. It changes nothing else.
\<close>

theorem checkout_previous:
  "fst (checkout e user channelId w) = Inr (getLastRead channelId user w) \<and>
   getLastRead channelId user (snd (checkout e user channelId w)) = Some (Date_now e) \<and>
   store (snd (checkout e user channelId w)) = store w \<and>
   published (snd (checkout e user channelId w)) = published w"
  by (simp add: checkout_def Let_def getLastRead_def setLastRead_def)

end
